theory Spec2Isabelle
  imports Main "HOL-Library.Char_ord" "HOL-Library.List_Lexorder"
begin

section \<open>Library functions the error controller calls\<close>

text \<open>
  The controller in \<^verbatim>\<open>subiquity/controllers/error.py\<close> builds file names with
  \<^verbatim>\<open>os.path\<close> and decides which directory entries are crash artifacts with
  \<^verbatim>\<open>os.path.splitext\<close>.  The functions below follow CPython's \<^verbatim>\<open>posixpath\<close> and
  \<^verbatim>\<open>genericpath\<close>.  Strings are lists of characters; Python's string order is the
  lexicographic order on code points, here on character codes.
\<close>

subsection \<open>Strings\<close>

text \<open>\<^verbatim>\<open>s.rfind(c)\<close>: the highest index of \<open>c\<close> in \<open>s\<close>, or \<open>-1\<close>.\<close>

fun rfind_aux :: "char \<Rightarrow> string \<Rightarrow> int \<Rightarrow> int \<Rightarrow> int" where
  "rfind_aux c [] i found = found"
| "rfind_aux c (x # xs) i found = rfind_aux c xs (i + 1) (if x = c then i else found)"

definition rfind :: "char \<Rightarrow> string \<Rightarrow> int" where
  "rfind c s = rfind_aux c s 0 (- 1)"

text \<open>\<^verbatim>\<open>s.split(c)\<close> with an explicit separator: empty fields are kept.\<close>

fun split_sep :: "char \<Rightarrow> string \<Rightarrow> string list" where
  "split_sep c [] = [[]]"
| "split_sep c (x # xs) =
     (if x = c then [] # split_sep c xs
      else (case split_sep c xs of
              [] \<Rightarrow> [[x]]
            | y # ys \<Rightarrow> (x # y) # ys))"

text \<open>\<^verbatim>\<open>c.join(parts)\<close>.\<close>

fun join_sep :: "char \<Rightarrow> string list \<Rightarrow> string" where
  "join_sep c [] = []"
| "join_sep c [x] = x"
| "join_sep c (x # y # ys) = x @ c # join_sep c (y # ys)"

text \<open>
  \<^verbatim>\<open>s.split()\<close> with no separator: fields are separated by runs of white space and no
  field is empty, so \<^verbatim>\<open>line.strip().split()\<close> is \<^verbatim>\<open>line.split()\<close>.  A character is a code
  point below 256; the white space of \<^verbatim>\<open>str\<close> among them is the ASCII white space
  (9 to 13, 28 to 32), the next-line control U+0085 and the no-break space U+00A0.
\<close>

definition isspace :: "char \<Rightarrow> bool" where
  "isspace c \<longleftrightarrow>
     (let n = (of_char c :: nat)
      in (9 \<le> n \<and> n \<le> 13) \<or> (28 \<le> n \<and> n \<le> 32) \<or> n = 133 \<or> n = 160)"

fun split_ws_aux :: "string \<Rightarrow> string \<Rightarrow> string list" where
  "split_ws_aux cur [] = (if cur = [] then [] else [cur])"
| "split_ws_aux cur (x # xs) =
     (if isspace x then (if cur = [] then split_ws_aux [] xs else cur # split_ws_aux [] xs)
      else split_ws_aux (cur @ [x]) xs)"

definition split_ws :: "string \<Rightarrow> string list" where
  "split_ws s = split_ws_aux [] s"

text \<open>\<^verbatim>\<open>s.lower()\<close> on ASCII letters.\<close>

definition lower_char :: "char \<Rightarrow> char" where
  "lower_char c =
     (if CHR ''A'' \<le> c \<and> c \<le> CHR ''Z'' then char_of (of_char c + (32 :: nat)) else c)"

definition lower :: "string \<Rightarrow> string" where
  "lower s = map lower_char s"

text \<open>
  \<^verbatim>\<open>sorted(xs, reverse=True)\<close> on strings.  Two strings that compare equal are the same
  string, so the stable descending sort is the ascending sort read backwards.
\<close>

definition sorted_reverse :: "string list \<Rightarrow> string list" where
  "sorted_reverse xs = rev (sort xs)"

subsection \<open>Paths\<close>

text \<open>\<^verbatim>\<open>os.path.join(a, b)\<close> for two components.\<close>

definition os_path_join :: "string \<Rightarrow> string \<Rightarrow> string" where
  "os_path_join a b =
     (if b \<noteq> [] \<and> hd b = CHR ''/'' then b
      else if a = [] \<or> last a = CHR ''/'' then a @ b
      else a @ ''/'' @ b)"

text \<open>\<^verbatim>\<open>os.path.basename(p)\<close>: what follows the last slash.\<close>

definition basename :: "string \<Rightarrow> string" where
  "basename p = drop (nat (rfind CHR ''/'' p + 1)) p"

text \<open>
  \<^verbatim>\<open>os.path.splitext(p)\<close>.  The extension starts at the last dot, provided that dot
  comes after the last slash and some character between the two is not a dot: leading
  dots of the file name do not start an extension.  \<open>splitext_scan\<close> is the
  \<^verbatim>\<open>while filenameIndex < dotIndex\<close> loop of \<^verbatim>\<open>genericpath._splitext\<close>.
\<close>

function splitext_scan :: "string \<Rightarrow> nat \<Rightarrow> nat \<Rightarrow> bool" where
  "splitext_scan p i d =
     (if i < d then (if p ! i \<noteq> CHR ''.'' then True else splitext_scan p (Suc i) d)
      else False)"
  by pat_completeness auto
termination
  by (relation "measure (\<lambda>(p, i, d). d - i)") auto

declare splitext_scan.simps [simp del]

definition splitext :: "string \<Rightarrow> string \<times> string" where
  "splitext p =
     (let sepIndex = rfind CHR ''/'' p; dotIndex = rfind CHR ''.'' p
      in if dotIndex > sepIndex \<and> splitext_scan p (nat (sepIndex + 1)) (nat dotIndex)
         then (take (nat dotIndex) p, drop (nat dotIndex) p)
         else (p, []))"

text \<open>\<^verbatim>\<open>os.path.normpath(path)\<close>.\<close>

fun normpath_comps :: "nat \<Rightarrow> string list \<Rightarrow> string list \<Rightarrow> string list" where
  "normpath_comps initial_slashes new_comps [] = new_comps"
| "normpath_comps initial_slashes new_comps (part # comps) =
     (if part = [] \<or> part = ''.'' then normpath_comps initial_slashes new_comps comps
      else if part \<noteq> ''..'' \<or> (initial_slashes = 0 \<and> new_comps = [])
                \<or> (new_comps \<noteq> [] \<and> last new_comps = ''..'')
        then normpath_comps initial_slashes (new_comps @ [part]) comps
      else if new_comps \<noteq> [] then normpath_comps initial_slashes (butlast new_comps) comps
      else normpath_comps initial_slashes new_comps comps)"

definition normpath :: "string \<Rightarrow> string" where
  "normpath path =
     (if path = [] then ''.''
      else
        let initial_slashes =
              (if take 1 path = ''/'' then
                 (if take 2 path = ''//'' \<and> take 3 path \<noteq> ''///'' then 2 else (1 :: nat))
               else 0);
            comps = normpath_comps initial_slashes [] (split_sep CHR ''/'' path);
            joined = replicate initial_slashes CHR ''/'' @ join_sep CHR ''/'' comps
        in if joined = [] then ''.'' else joined)"

text \<open>\<^verbatim>\<open>os.path.abspath(path)\<close>; the working directory is the caller's.\<close>

definition abspath :: "string \<Rightarrow> string \<Rightarrow> string" where
  "abspath cwd path =
     normpath (if take 1 path = ''/'' then path else os_path_join cwd path)"


section \<open>Data model\<close>

datatype ErrorReportState = INCOMPLETE | LOADING | DONE | ERROR_GENERATING | ERROR_LOADING

datatype ErrorReportKind = BLOCK_PROBE_FAIL | DISK_PROBE_FAIL | INSTALL_FAIL | UI | UNKNOWN

text \<open>\<^verbatim>\<open>kind.name\<close>, the member's name.\<close>

fun kind_name :: "ErrorReportKind \<Rightarrow> string" where
  "kind_name BLOCK_PROBE_FAIL = ''BLOCK_PROBE_FAIL''"
| "kind_name DISK_PROBE_FAIL = ''DISK_PROBE_FAIL''"
| "kind_name INSTALL_FAIL = ''INSTALL_FAIL''"
| "kind_name UI = ''UI''"
| "kind_name UNKNOWN = ''UNKNOWN''"

text \<open>The exceptions the controller's code and its collaborators raise.\<close>

datatype exn =
    FileNotFoundError
  | PermissionError
  | JSONDecodeError
  | UnicodeDecodeError
  | TypeError
  | AttributeError
  | KeyError string
  | IndexError
  | ValueError
  | Failure string

text \<open>
  The values \<^verbatim>\<open>json.load\<close> returns, floating-point numbers apart: \<^verbatim>\<open>None\<close>, booleans,
  integers, strings, lists, and mappings with string keys.  \<^verbatim>\<open>json.dump\<close> writes each
  of them as a text that reads back as the same value.  A tuple or a mapping with
  another key is not among them.  An object is an association list in insertion
  order, as a Python \<^verbatim>\<open>dict\<close> is.
\<close>

datatype json =
    JNull
  | JBool bool
  | JInt int
  | JStr string
  | JArr "json list"
  | JObj "(string \<times> json) list"

text \<open>\<^verbatim>\<open>d.get(k, default)\<close>, \<^verbatim>\<open>d[k] = v\<close> and \<^verbatim>\<open>del d[k]\<close> on a dictionary.\<close>

definition dict_get :: "('k \<times> 'v) list \<Rightarrow> 'k \<Rightarrow> 'v \<Rightarrow> 'v" where
  "dict_get d k dflt = (case map_of d k of None \<Rightarrow> dflt | Some v \<Rightarrow> v)"

fun dict_set :: "('k \<times> 'v) list \<Rightarrow> 'k \<Rightarrow> 'v \<Rightarrow> ('k \<times> 'v) list" where
  "dict_set [] k v = [(k, v)]"
| "dict_set ((k', v') # d) k v = (if k' = k then (k, v) # d else (k', v') # dict_set d k v)"

definition dict_del :: "(string \<times> 'v) list \<Rightarrow> string \<Rightarrow> exn + (string \<times> 'v) list" where
  "dict_del d k =
     (if k \<in> set (map fst d) then Inr (filter (\<lambda>kv. fst kv \<noteq> k) d) else Inl (KeyError k))"

text \<open>
  The same operations on the value held in \<^verbatim>\<open>report.meta\<close>.  \<^verbatim>\<open>from_file\<close> stores
  whatever \<^verbatim>\<open>json.load\<close> returned, so the value need not be an object: item
  assignment with a string key on anything else is a \<^verbatim>\<open>TypeError\<close>, and only a
  \<^verbatim>\<open>dict\<close> has \<^verbatim>\<open>get\<close>.
\<close>

definition setitem :: "json \<Rightarrow> string \<Rightarrow> json \<Rightarrow> exn + json" where
  "setitem m key v = (case m of JObj d \<Rightarrow> Inr (JObj (dict_set d key v)) | _ \<Rightarrow> Inl TypeError)"

definition meta_get :: "json \<Rightarrow> string \<Rightarrow> json \<Rightarrow> exn + json" where
  "meta_get m key dflt = (case m of JObj d \<Rightarrow> Inr (dict_get d key dflt) | _ \<Rightarrow> Inl AttributeError)"

subsection \<open>The report store\<close>

text \<open>
  A file holds the text \<^verbatim>\<open>json.dump\<close> wrote for a value (\<open>JsonDoc\<close>), other content
  that decodes as text in the locale's encoding but is no JSON document (\<open>Blob\<close>), or
  bytes that do not decode as text (\<open>Undecodable\<close>).  \<^verbatim>\<open>json.load(fp)\<close> is
  \<^verbatim>\<open>json.loads(fp.read())\<close> on a file opened in text mode: reading the file decodes
  it, which fails on the third kind before any parsing, and parsing fails on the
  second.  The encoding itself belongs to the \<^verbatim>\<open>json\<close> module.
\<close>

datatype fdata = JsonDoc json | Blob string | Undecodable string

definition json_load :: "fdata \<Rightarrow> exn + json" where
  "json_load d =
     (case d of
        JsonDoc j \<Rightarrow> Inr j
      | Blob _ \<Rightarrow> Inl JSONDecodeError
      | Undecodable _ \<Rightarrow> Inl UnicodeDecodeError)"

text \<open>An open file object.\<close>

record fobj =
  fname :: string
  writing :: bool
  closed :: bool

text \<open>The diagnostic artifact, \<^verbatim>\<open>apport.Report\<close>, is a dictionary of text fields.\<close>

type_synonym pr_fields = "(string \<times> string) list"

text \<open>
  A procedure that mutates the artifact in place and may raise after having changed it:
  the exception, if any, and the artifact as it is left.
\<close>

type_synonym pr_proc = "pr_fields \<Rightarrow> exn option \<times> pr_fields"

record ErrorReport =
  base :: string
  pr :: pr_fields
  state :: ErrorReportState
  fileobj :: "nat option"
  meta :: json

text \<open>
  The closures handed to the background runner.  \<^verbatim>\<open>load\<close> is given the continuation
  \<^verbatim>\<open>lambda: self._report_loaded(to_load[1:])\<close>, which is determined by the rest of the
  list; \<^verbatim>\<open>add_info\<close> submits \<^verbatim>\<open>_bg_add_info\<close>, which is determined by the report and
  the caller's hook.
\<close>

datatype callback = ReportLoaded "nat list"

datatype task = AddInfoTask nat pr_proc | LoadTask nat callback

text \<open>What an observer sees: log records and emitted signals.\<close>

datatype event =
    LogDebug string
  | LogException string exn
  | Signal nat string

text \<open>
  \<^verbatim>\<open>ErrorController\<close>: the store directory, the submission target, the dry-run option
  of the application and the report sequence (references to report objects).
\<close>

record ErrorController =
  crash_directory :: string
  crashdb_spec :: "(string \<times> string) list"
  dry_run :: bool
  reports :: "nat list"

text \<open>
  The state the controller works on: the files of the store by path, whether the store
  can be written, the file objects and report objects created so far (a reference is an
  index), the controller, the background tasks in flight and the events so far.
\<close>

record world =
  files :: "(string \<times> fdata) list"
  writable :: bool
  fobjs :: "fobj list"
  objs :: "ErrorReport list"
  ctrl :: ErrorController
  pending :: "task list"
  trace :: "event list"

text \<open>
  The host: the environment variable, the diagnostic library's procedures, the other
  attributes of the enumeration class, and what mount and device introspection report.
\<close>

record env =
  SNAP_REVISION :: "string option"
  add_proc_info :: pr_proc
  add_os_info :: pr_proc
  add_hooks_info :: pr_proc
  attach_hardware :: pr_proc
  pr_write :: "pr_fields \<Rightarrow> string \<times> exn option"
  pr_load :: "fdata \<Rightarrow> pr_proc"
  class_attr :: "string \<Rightarrow> bool"
  cwd :: string
  realpath :: "string \<Rightarrow> string"
  mountinfo :: "exn + string list"
  list_devices :: "string \<Rightarrow> exn + (string \<times> string) list list"

subsection \<open>Files and objects\<close>

definition upd_at :: "nat \<Rightarrow> ('a \<Rightarrow> 'a) \<Rightarrow> 'a list \<Rightarrow> 'a list" where
  "upd_at i g xs = (if i < length xs then xs[i := g (xs ! i)] else xs)"

text \<open>
  \<^verbatim>\<open>open(path, 'w')\<close> and \<^verbatim>\<open>open(path, 'wb')\<close>: fail when the store cannot be written,
  otherwise create or truncate the file.
\<close>

definition open_w :: "string \<Rightarrow> world \<Rightarrow> (exn + nat) \<times> world" where
  "open_w p w =
     (if \<not> writable w then (Inl PermissionError, w)
      else (Inr (length (fobjs w)),
            w\<lparr>files := dict_set (files w) p (Blob []),
              fobjs := fobjs w @ [\<lparr>fname = p, writing = True, closed = False\<rparr>]\<rparr>))"

text \<open>\<^verbatim>\<open>open(path, 'r')\<close> and \<^verbatim>\<open>open(path, 'rb')\<close>.\<close>

definition open_r :: "string \<Rightarrow> world \<Rightarrow> (exn + nat) \<times> world" where
  "open_r p w =
     (if p \<notin> set (map fst (files w)) then (Inl FileNotFoundError, w)
      else (Inr (length (fobjs w)),
            w\<lparr>fobjs := fobjs w @ [\<lparr>fname = p, writing = False, closed = False\<rparr>]\<rparr>))"

definition close :: "nat \<Rightarrow> world \<Rightarrow> world" where
  "close f w = w\<lparr>fobjs := upd_at f (\<lambda>fo. fo\<lparr>closed := True\<rparr>) (fobjs w)\<rparr>"

definition read_file :: "nat \<Rightarrow> world \<Rightarrow> fdata" where
  "read_file f w = dict_get (files w) (fname (fobjs w ! f)) (Blob [])"

definition write_file :: "nat \<Rightarrow> fdata \<Rightarrow> world \<Rightarrow> world" where
  "write_file f d w = w\<lparr>files := dict_set (files w) (fname (fobjs w ! f)) d\<rparr>"

text \<open>
  \<^verbatim>\<open>os.listdir(d)\<close>: the names of the files directly in \<open>d\<close>, each name once, in no
  particular order.
\<close>

definition listdir :: "string \<Rightarrow> world \<Rightarrow> string list" where
  "listdir d w =
     remdups (map basename
       (filter (\<lambda>p. basename p \<noteq> [] \<and> os_path_join d (basename p) = p) (map fst (files w))))"

definition upd_report :: "nat \<Rightarrow> (ErrorReport \<Rightarrow> ErrorReport) \<Rightarrow> world \<Rightarrow> world" where
  "upd_report r g w = w\<lparr>objs := upd_at r g (objs w)\<rparr>"

definition alloc_report :: "ErrorReport \<Rightarrow> world \<Rightarrow> nat \<times> world" where
  "alloc_report rep w = (length (objs w), w\<lparr>objs := objs w @ [rep]\<rparr>)"

definition emit :: "event \<Rightarrow> world \<Rightarrow> world" where
  "emit e w = w\<lparr>trace := trace w @ [e]\<rparr>"


text \<open>
  Sequencing with exceptions: the second action runs only if the first returned, and an
  exception keeps the state the first action left behind.
\<close>

definition and_then ::
  "(exn + 'a) \<times> world \<Rightarrow> ('a \<Rightarrow> world \<Rightarrow> (exn + 'b) \<times> world) \<Rightarrow> (exn + 'b) \<times> world" where
  "and_then m f = (case m of (Inl e, w) \<Rightarrow> (Inl e, w) | (Inr a, w) \<Rightarrow> f a w)"

section \<open>ErrorReport\<close>

definition path_with_ext :: "string \<Rightarrow> nat \<Rightarrow> world \<Rightarrow> string" where
  "path_with_ext ext r w =
     os_path_join (crash_directory (ctrl w)) (base (objs w ! r) @ ''.'' @ ext)"

definition meta_path :: "nat \<Rightarrow> world \<Rightarrow> string" where
  "meta_path r w = path_with_ext ''meta'' r w"

definition path :: "nat \<Rightarrow> world \<Rightarrow> string" where
  "path r w = path_with_ext ''crash'' r w"

text \<open>
  \<^verbatim>\<open>set_meta\<close>: the entry is stored in memory first; then the metadata file is opened
  for writing, the whole mapping is dumped and the file is closed.
\<close>

definition set_meta :: "nat \<Rightarrow> string \<Rightarrow> json \<Rightarrow> world \<Rightarrow> (exn + unit) \<times> world" where
  "set_meta r key v w =
     (case setitem (meta (objs w ! r)) key v of
        Inl e \<Rightarrow> (Inl e, w)
      | Inr m \<Rightarrow>
          and_then (open_w (meta_path r w) (upd_report r (\<lambda>rep. rep\<lparr>meta := m\<rparr>) w))
            (\<lambda>fp w1. (Inr (), close fp (write_file fp (JsonDoc (meta (objs w1 ! r))) w1))))"

definition mark_seen :: "nat \<Rightarrow> world \<Rightarrow> (exn + unit) \<times> world" where
  "mark_seen r w =
     and_then (set_meta r ''seen'' (JBool True) w)
       (\<lambda>_ w1. (Inr (), emit (Signal r ''changed'') w1))"

text \<open>
  \<^verbatim>\<open>repr\<close> of a dictionary of strings that hold no quote and no backslash, as those of
  \<^verbatim>\<open>crashdb_spec\<close> do.
\<close>

definition repr_dict :: "(string \<times> string) list \<Rightarrow> string" where
  "repr_dict d =
     ''{'' @ concat (map (\<lambda>i. (if i = 0 then [] else '', '')
                            @ [CHR 0x27] @ fst (d ! i) @ [CHR 0x27] @ '': ''
                            @ [CHR 0x27] @ snd (d ! i) @ [CHR 0x27]) [0..<length d]) @ ''}''"

text \<open>
  \<^verbatim>\<open>ErrorReport.new\<close>.  \<open>now\<close> is \<^verbatim>\<open>"{:.9f}".format(time.time())\<close> and \<open>date\<close> is the
  \<^verbatim>\<open>time.asctime()\<close> that \<^verbatim>\<open>apport.Report\<close> stores.
\<close>

definition new :: "string \<Rightarrow> string \<Rightarrow> ErrorReportKind \<Rightarrow> world \<Rightarrow> (exn + nat) \<times> world" where
  "new now date kind w =
     (let b = now @ ''.'' @ lower (kind_name kind)
      in and_then (open_w (os_path_join (crash_directory (ctrl w)) (b @ ''.crash'')) w)
           (\<lambda>crash_file w1.
              let p = dict_set [(''ProblemType'', ''Bug''), (''Date'', date)]
                        ''CrashDB'' (repr_dict (crashdb_spec (ctrl w1)));
                  (r, w2) = alloc_report
                     \<lparr>base = b, pr = p, state = INCOMPLETE, fileobj = Some crash_file,
                      meta = JObj []\<rparr> w1
              in and_then (set_meta r ''kind'' (JStr (kind_name kind)) w2)
                   (\<lambda>_ w3. (Inr r, w3))))"

text \<open>
  \<^verbatim>\<open>ErrorReport.from_file\<close>.  A missing metadata file is the one failure it handles;
  what \<^verbatim>\<open>json.load\<close> raises leaves through the \<^verbatim>\<open>with\<close> block, which closes the
  metadata file on the way.
\<close>

definition from_file :: "string \<Rightarrow> world \<Rightarrow> (exn + nat) \<times> world" where
  "from_file fpath w =
     (let b = fst (splitext (basename fpath))
      in and_then (open_r fpath w)
           (\<lambda>f w1.
              let (r, w2) = alloc_report
                     \<lparr>base = b, pr = [(''ProblemType'', ''Crash''), (''Date'', ''???'')],
                      state = LOADING, fileobj = Some f, meta = JObj []\<rparr> w1
              in case open_r (meta_path r w2) w2 of
                   (Inl FileNotFoundError, w3) \<Rightarrow> (Inr r, w3)
                 | (Inl e, w3) \<Rightarrow> (Inl e, w3)
                 | (Inr fp, w3) \<Rightarrow>
                     (case json_load (read_file fp w3) of
                        Inl e \<Rightarrow> (Inl e, close fp w3)
                      | Inr m \<Rightarrow> (Inr r, close fp (upd_report r (\<lambda>rep. rep\<lparr>meta := m\<rparr>) w3)))))"

subsection \<open>Populating a report\<close>

definition run_proc :: "pr_proc \<Rightarrow> nat \<Rightarrow> world \<Rightarrow> (exn + unit) \<times> world" where
  "run_proc f r w =
     (case f (pr (objs w ! r)) of
        (None, p) \<Rightarrow> (Inr (), upd_report r (\<lambda>rep. rep\<lparr>pr := p\<rparr>) w)
      | (Some e, p) \<Rightarrow> (Inl e, upd_report r (\<lambda>rep. rep\<lparr>pr := p\<rparr>) w))"

definition set_field :: "string \<Rightarrow> string \<Rightarrow> pr_proc" where
  "set_field k v p = (None, dict_set p k v)"

definition del_field :: "string \<Rightarrow> pr_proc" where
  "del_field k p = (case dict_del p k of Inl e \<Rightarrow> (Some e, p) | Inr p' \<Rightarrow> (None, p'))"

text \<open>
  \<^verbatim>\<open>self.pr.write(self._file)\<close>: needs a file object that is open for writing; the
  library may raise after part of the artifact is written.  Opening for writing has
  truncated the file, so what is appended to is a \<open>Blob\<close>; the other two cases do
  not arise on a file object that is open for writing.
\<close>

definition append_bytes :: "string \<Rightarrow> fdata \<Rightarrow> fdata" where
  "append_bytes s d =
     (case d of
        Blob b \<Rightarrow> Blob (b @ s)
      | JsonDoc _ \<Rightarrow> Blob s
      | Undecodable b \<Rightarrow> Undecodable (b @ s))"

definition write_report :: "env \<Rightarrow> nat \<Rightarrow> world \<Rightarrow> (exn + unit) \<times> world" where
  "write_report env r w =
     (case fileobj (objs w ! r) of
        None \<Rightarrow> (Inl AttributeError, w)
      | Some f \<Rightarrow>
          if closed (fobjs w ! f) \<or> \<not> writing (fobjs w ! f) then (Inl ValueError, w)
          else (case pr_write env (pr (objs w ! r)) of
                  (bytes, raised) \<Rightarrow>
                    (case raised of None \<Rightarrow> Inr () | Some e \<Rightarrow> Inl e,
                     write_file f (append_bytes bytes (read_file f w)) w)))"

text \<open>The work \<^verbatim>\<open>_bg_add_info\<close> of \<^verbatim>\<open>add_info\<close>.\<close>

definition bg_add_info :: "env \<Rightarrow> pr_proc \<Rightarrow> nat \<Rightarrow> world \<Rightarrow> (exn + unit) \<times> world" where
  "bg_add_info env bg_attach_hook r w =
     and_then (run_proc bg_attach_hook r w) (\<lambda>_ w.
     and_then (run_proc (add_proc_info env) r w) (\<lambda>_ w.
     and_then (run_proc (add_os_info env) r w) (\<lambda>_ w.
     and_then (run_proc (add_hooks_info env) r w) (\<lambda>_ w.
     and_then (run_proc (attach_hardware env) r w) (\<lambda>_ w.
     and_then (run_proc (set_field ''Package''
                 (''subiquity '' @ (case SNAP_REVISION env of
                                      None \<Rightarrow> ''SNAP_REVISION'' | Some v \<Rightarrow> v))) r w) (\<lambda>_ w.
     and_then (run_proc (set_field ''SourcePackage'' ''subiquity'') r w) (\<lambda>_ w.
     and_then (run_proc (del_field ''ExecutableTimestamp'') r w) (\<lambda>_ w.
     and_then (run_proc (del_field ''ProcMaps'') r w) (\<lambda>_ w.
     write_report env r w)))))))))"

text \<open>
  The last three statements of both completion handlers:
  \<^verbatim>\<open>self._file.close(); self._file = None; urwid.emit_signal(self, "changed")\<close>.
\<close>

definition close_and_notify :: "nat \<Rightarrow> world \<Rightarrow> (exn + unit) \<times> world" where
  "close_and_notify r w =
     (case fileobj (objs w ! r) of
        None \<Rightarrow> (Inl AttributeError, w)
      | Some f \<Rightarrow>
          (Inr (), emit (Signal r ''changed'')
                     (upd_report r (\<lambda>rep. rep\<lparr>fileobj := None\<rparr>) (close f w))))"

text \<open>The completion handler \<^verbatim>\<open>added_info(fut)\<close>; \<open>fut\<close> is the outcome of the work.\<close>

definition added_info :: "nat \<Rightarrow> exn + unit \<Rightarrow> world \<Rightarrow> (exn + unit) \<times> world" where
  "added_info r fut w =
     (let w1 = emit (LogDebug (''done adding info for report '' @ base (objs w ! r))) w;
          w2 = (case fut of
                  Inl e \<Rightarrow> emit (LogException ''adding info to problem report failed'' e)
                             (upd_report r (\<lambda>rep. rep\<lparr>state := ERROR_GENERATING\<rparr>) w1)
                | Inr _ \<Rightarrow> upd_report r (\<lambda>rep. rep\<lparr>state := DONE\<rparr>) w1)
      in close_and_notify r w2)"

text \<open>
  Modelled from the spec: \<^verbatim>\<open>BaseController.run_in_bg(func, callback)\<close> lives in
  \<^verbatim>\<open>subiquitycore/controller.py\<close>, which is not among the sources.  The spec's
  Background Task Runner executes the work off the main thread and delivers its outcome
  to the completion callback exactly once, on the main thread.  Submitting records the
  task as in flight; \<open>complete_task\<close> below is the delivery.
\<close>

definition run_in_bg :: "task \<Rightarrow> world \<Rightarrow> (exn + unit) \<times> world" where
  "run_in_bg t w = (Inr (), w\<lparr>pending := pending w @ [t]\<rparr>)"

definition add_info :: "env \<Rightarrow> nat \<Rightarrow> pr_proc \<Rightarrow> bool \<Rightarrow> world \<Rightarrow> (exn + unit) \<times> world" where
  "add_info env r bg_attach_hook wait w =
     (let w1 = emit (LogDebug (''begin adding info for report '' @ base (objs w ! r))) w
      in if wait then bg_add_info env bg_attach_hook r w1
         else run_in_bg (AddInfoTask r bg_attach_hook) w1)"

subsection \<open>Loading a report\<close>

text \<open>The work \<^verbatim>\<open>_bg_load\<close> of \<^verbatim>\<open>load\<close>.\<close>

definition bg_load :: "env \<Rightarrow> nat \<Rightarrow> world \<Rightarrow> (exn + unit) \<times> world" where
  "bg_load env r w =
     (let w1 = emit (LogDebug (''loading report '' @ base (objs w ! r))) w
      in case fileobj (objs w1 ! r) of
           None \<Rightarrow> (Inl AttributeError, w1)
         | Some f \<Rightarrow>
             if closed (fobjs w1 ! f) then (Inl ValueError, w1)
             else run_proc (pr_load env (read_file f w1)) r w1)"

definition load :: "nat \<Rightarrow> callback \<Rightarrow> world \<Rightarrow> (exn + unit) \<times> world" where
  "load r cb w = run_in_bg (LoadTask r cb) w"

text \<open>\<^verbatim>\<open>ErrorController._report_loaded(to_load)\<close>.\<close>

definition report_loaded :: "nat list \<Rightarrow> world \<Rightarrow> (exn + unit) \<times> world" where
  "report_loaded to_load w =
     (case to_load of [] \<Rightarrow> (Inr (), w) | r # rest \<Rightarrow> load r (ReportLoaded rest) w)"

definition call :: "callback \<Rightarrow> world \<Rightarrow> (exn + unit) \<times> world" where
  "call cb w = (case cb of ReportLoaded rest \<Rightarrow> report_loaded rest w)"

text \<open>The completion handler \<^verbatim>\<open>loaded(fut)\<close> of \<^verbatim>\<open>load(cb)\<close>.\<close>

definition loaded :: "nat \<Rightarrow> callback \<Rightarrow> exn + unit \<Rightarrow> world \<Rightarrow> (exn + unit) \<times> world" where
  "loaded r cb fut w =
     (let w1 = emit (LogDebug (''done loading report '' @ base (objs w ! r))) w;
          w2 = (case fut of
                  Inl e \<Rightarrow> emit (LogException ''loading problem report failed'' e)
                             (upd_report r (\<lambda>rep. rep\<lparr>state := ERROR_LOADING\<rparr>) w1)
                | Inr _ \<Rightarrow> upd_report r (\<lambda>rep. rep\<lparr>state := DONE\<rparr>) w1)
      in and_then (close_and_notify r w2) (\<lambda>_ w3. call cb w3))"

text \<open>
  The runner finishes the task at position \<open>i\<close> of those in flight: the work runs on the
  state as it is then, and its outcome goes to the completion handler.  An exception
  that leaves the handler is returned.
\<close>

definition complete_task :: "env \<Rightarrow> nat \<Rightarrow> world \<Rightarrow> (exn + unit) \<times> world" where
  "complete_task env i w =
     (if i < length (pending w) then
        (let w0 = w\<lparr>pending := take i (pending w) @ drop (Suc i) (pending w)\<rparr>
         in case pending w ! i of
              AddInfoTask r hook \<Rightarrow>
                (case bg_add_info env hook r w0 of (fut, w1) \<Rightarrow> added_info r fut w1)
            | LoadTask r cb \<Rightarrow>
                (case bg_load env r w0 of (fut, w1) \<Rightarrow> loaded r cb fut w1))
      else (Inr (), w))"


subsection \<open>Derived attributes\<close>

text \<open>
  \<^verbatim>\<open>getattr(ErrorReportKind, k, ErrorReportKind.UNKNOWN)\<close>: a member's name gives the
  member; another attribute of the class gives that attribute, which is no kind; any
  other string gives the default; a name that is not a string is a \<^verbatim>\<open>TypeError\<close>.
\<close>

datatype attr = Member ErrorReportKind | ClassAttr string

definition member_of_name :: "string \<Rightarrow> ErrorReportKind option" where
  "member_of_name s =
     (if s = ''BLOCK_PROBE_FAIL'' then Some BLOCK_PROBE_FAIL
      else if s = ''DISK_PROBE_FAIL'' then Some DISK_PROBE_FAIL
      else if s = ''INSTALL_FAIL'' then Some INSTALL_FAIL
      else if s = ''UI'' then Some UI
      else if s = ''UNKNOWN'' then Some UNKNOWN
      else None)"

definition getattr_ErrorReportKind :: "env \<Rightarrow> json \<Rightarrow> ErrorReportKind \<Rightarrow> exn + attr" where
  "getattr_ErrorReportKind env k dflt =
     (case k of
        JStr s \<Rightarrow>
          (case member_of_name s of
             Some m \<Rightarrow> Inr (Member m)
           | None \<Rightarrow> if class_attr env s then Inr (ClassAttr s) else Inr (Member dflt))
      | _ \<Rightarrow> Inl TypeError)"

definition kind :: "env \<Rightarrow> ErrorReport \<Rightarrow> exn + attr" where
  "kind env rep =
     (case meta_get (meta rep) ''kind'' (JStr ''UNKNOWN'') of
        Inl e \<Rightarrow> Inl e
      | Inr k \<Rightarrow> getattr_ErrorReportKind env k UNKNOWN)"

definition seen :: "ErrorReport \<Rightarrow> exn + json" where
  "seen rep = meta_get (meta rep) ''seen'' (JBool False)"

text \<open>
  \<^verbatim>\<open>persistent_details\<close>.  \<open>find_mount\<close> is the \<^verbatim>\<open>for\<close> loop over the lines of the mount
  table: it stops at the first line whose fifth field is the store directory and
  returns that line's tenth and fourth fields; \<open>None\<close> is the loop's \<^verbatim>\<open>else\<close> branch.
  What \<^verbatim>\<open>import pyudev\<close> or the device listing raises is \<open>list_devices\<close> failing.
\<close>

fun find_mount :: "string \<Rightarrow> string list \<Rightarrow> exn + (string \<times> string) option" where
  "find_mount looking_for [] = Inr None"
| "find_mount looking_for (line # lines) =
     (let parts = split_ws line
      in if length parts \<le> 4 then Inl IndexError
         else if normpath (parts ! 4) = looking_for then
           (if length parts \<le> 9 then Inl IndexError else Inr (Some (parts ! 9, parts ! 3)))
         else find_mount looking_for lines)"

definition persistent_details ::
  "env \<Rightarrow> ErrorController \<Rightarrow> ErrorReport \<Rightarrow> exn + (string option \<times> string option)" where
  "persistent_details env c rep =
     (let looking_for = abspath (cwd env) (normpath (crash_directory c))
      in case mountinfo env of
           Inl e \<Rightarrow> Inl e
         | Inr lines \<Rightarrow>
             (case find_mount looking_for lines of
                Inl e \<Rightarrow> Inl e
              | Inr None \<Rightarrow>
                  if dry_run c
                  then Inr (Some ''casper-rw'',
                            Some (''install-logs/2019-11-06.0/crash/'' @ base rep @ ''.crash''))
                  else Inr (None, None)
              | Inr (Some (devname, root)) \<Rightarrow>
                  (case list_devices env (realpath env devname) of
                     Inl e \<Rightarrow> Inl e
                   | Inr devs \<Rightarrow>
                       if devs = [] then Inr (None, None)
                       else Inr (Some (dict_get (hd devs) ''ID_FS_LABEL_ENC'' []),
                                 Some (drop 1 root @ ''/'' @ base rep @ ''.crash'')))))"

section \<open>ErrorController\<close>

text \<open>\<^verbatim>\<open>ErrorController.__init__\<close>, from the application's root and dry-run option.\<close>

definition ErrorController_init :: "string \<Rightarrow> bool \<Rightarrow> ErrorController" where
  "ErrorController_init root dry =
     \<lparr>crash_directory = os_path_join root ''var/crash'',
      crashdb_spec =
        (let spec = [(''impl'', ''launchpad''), (''project'', ''subiquity'')]
         in if dry then dict_set spec ''launchpad_instance'' ''staging'' else spec),
      dry_run = dry,
      reports = []\<rparr>"

definition append_report :: "nat \<Rightarrow> world \<Rightarrow> world" where
  "append_report r w = w\<lparr>ctrl := (ctrl w)\<lparr>reports := reports (ctrl w) @ [r]\<rparr>\<rparr>"

definition insert_report :: "nat \<Rightarrow> world \<Rightarrow> world" where
  "insert_report r w = w\<lparr>ctrl := (ctrl w)\<lparr>reports := r # reports (ctrl w)\<rparr>\<rparr>"

text \<open>The \<^verbatim>\<open>for\<close> loop of \<^verbatim>\<open>scan_crash_dir\<close> over the sorted file names.\<close>

fun scan_loop :: "string list \<Rightarrow> nat list \<Rightarrow> world \<Rightarrow> (exn + nat list) \<times> world" where
  "scan_loop [] to_load w = (Inr to_load, w)"
| "scan_loop (filename # rest) to_load w =
     (if snd (splitext filename) \<noteq> ''.crash'' then scan_loop rest to_load w
      else (case from_file (os_path_join (crash_directory (ctrl w)) filename) w of
              (Inl e, w1) \<Rightarrow> (Inl e, w1)
            | (Inr r, w1) \<Rightarrow> scan_loop rest (to_load @ [r]) (append_report r w1)))"

declare scan_loop.simps [simp del]

definition scan_crash_dir :: "world \<Rightarrow> (exn + unit) \<times> world" where
  "scan_crash_dir w =
     (let filenames = listdir (crash_directory (ctrl w)) w
      in and_then (scan_loop (sorted_reverse filenames) [] w)
           (\<lambda>to_load w1. report_loaded to_load w1))"

definition create_report ::
  "string \<Rightarrow> string \<Rightarrow> ErrorReportKind \<Rightarrow> world \<Rightarrow> (exn + nat) \<times> world" where
  "create_report now date k w =
     and_then (new now date k w) (\<lambda>r w1. (Inr r, insert_report r w1))"


section \<open>Runs of the background runner\<close>

text \<open>
  One step of the runner delivers one of the tasks in flight, whichever it is; a run is
  any number of such steps.
\<close>

inductive bg_step :: "env \<Rightarrow> world \<Rightarrow> world \<Rightarrow> bool" for env where
  deliver: "i < length (pending w) \<Longrightarrow> w' = snd (complete_task env i w) \<Longrightarrow> bg_step env w w'"

inductive bg_run :: "env \<Rightarrow> world \<Rightarrow> world \<Rightarrow> bool" for env where
  bg_run_refl: "bg_run env w w"
| bg_run_step: "bg_run env w w1 \<Longrightarrow> bg_step env w1 w2 \<Longrightarrow> bg_run env w w2"

fun is_load :: "task \<Rightarrow> bool" where
  "is_load (LoadTask r cb) = True"
| "is_load (AddInfoTask r hook) = False"

definition loads_in_flight :: "world \<Rightarrow> nat" where
  "loads_in_flight w = length (filter is_load (pending w))"

text \<open>
  Two states that differ at most in the artifacts (\<^verbatim>\<open>pr\<close>) of the reports and in the
  contents of the files: what the work of a background task may change.
\<close>

definition artifact_only :: "world \<Rightarrow> world \<Rightarrow> bool" where
  "artifact_only w w' \<longleftrightarrow>
     fobjs w' = fobjs w \<and> ctrl w' = ctrl w \<and> pending w' = pending w \<and> trace w' = trace w
     \<and> writable w' = writable w \<and> length (objs w') = length (objs w)
     \<and> (\<forall>i. base (objs w' ! i) = base (objs w ! i) \<and> state (objs w' ! i) = state (objs w ! i)
            \<and> fileobj (objs w' ! i) = fileobj (objs w ! i) \<and> meta (objs w' ! i) = meta (objs w ! i))"

text \<open>The \<^verbatim>\<open>"changed"\<close> signals of a report among the events.\<close>

definition changed_signals :: "nat \<Rightarrow> event list \<Rightarrow> nat" where
  "changed_signals r evs = length (filter (\<lambda>e. e = Signal r ''changed'') evs)"

text \<open>
  Reading a report's metadata file off the disk, the way \<^verbatim>\<open>from_file\<close> reads it:
  open \<^verbatim>\<open>meta_path\<close> and \<^verbatim>\<open>json.load\<close> it.
\<close>

definition read_meta :: "nat \<Rightarrow> world \<Rightarrow> exn + json" where
  "read_meta r w =
     (case open_r (meta_path r w) w of
        (Inl e, w1) \<Rightarrow> Inl e
      | (Inr fp, w1) \<Rightarrow> json_load (read_file fp w1))"

text \<open>
  The operations of the core on reports, as the controller, its callers and the runner
  invoke them.  \<^verbatim>\<open>set_meta\<close> is invoked by \<^verbatim>\<open>new\<close> and by \<^verbatim>\<open>mark_seen\<close> only.
\<close>

datatype op =
    CreateReport string string ErrorReportKind
  | ScanCrashDir
  | AddInfo nat pr_proc bool
  | Load nat callback
  | MarkSeen nat
  | Deliver nat

fun exec :: "env \<Rightarrow> op \<Rightarrow> world \<Rightarrow> world" where
  "exec env (CreateReport now date k) w = snd (create_report now date k w)"
| "exec env ScanCrashDir w = snd (scan_crash_dir w)"
| "exec env (AddInfo r hook wait) w = snd (add_info env r hook wait w)"
| "exec env (Load r cb) w = snd (load r cb w)"
| "exec env (MarkSeen r) w = snd (mark_seen r w)"
| "exec env (Deliver i) w = snd (complete_task env i w)"

fun exec_all :: "env \<Rightarrow> op list \<Rightarrow> world \<Rightarrow> world" where
  "exec_all env [] w = w"
| "exec_all env (x # xs) w = exec_all env xs (exec env x w)"

section \<open>Notions used to state the properties\<close>

text \<open>
  The report that \<^verbatim>\<open>from_file\<close> constructs, the stem of an artifact's file name, and
  the metadata file that \<^verbatim>\<open>from_file\<close> looks for: \<^verbatim>\<open>meta_path\<close> of the new report.
\<close>

definition loading_report :: "string \<Rightarrow> nat \<Rightarrow> json \<Rightarrow> ErrorReport" where
  "loading_report b f m =
     \<lparr>base = b, pr = [(''ProblemType'', ''Crash''), (''Date'', ''???'')],
      state = LOADING, fileobj = Some f, meta = m\<rparr>"

definition stem :: "string \<Rightarrow> string" where
  "stem fpath = fst (splitext (basename fpath))"

definition meta_file_of :: "world \<Rightarrow> string \<Rightarrow> string" where
  "meta_file_of w fpath = os_path_join (crash_directory (ctrl w)) (stem fpath @ ''.meta'')"

text \<open>The entry \<^verbatim>\<open>meta["kind"]\<close> of a report, if its \<^verbatim>\<open>meta\<close> is a mapping that has one.\<close>

definition kind_entry :: "ErrorReport \<Rightarrow> json option" where
  "kind_entry rep = (case meta rep of JObj d \<Rightarrow> map_of d ''kind'' | _ \<Rightarrow> None)"

text \<open>
  A later state keeps the kinds of an earlier one: every report of the earlier state is
  still there and its \<^verbatim>\<open>meta["kind"]\<close> is the same.
\<close>

definition kinds_kept :: "world \<Rightarrow> world \<Rightarrow> bool" where
  "kinds_kept w w' \<longleftrightarrow>
     length (objs w) \<le> length (objs w')
     \<and> (\<forall>i < length (objs w). kind_entry (objs w' ! i) = kind_entry (objs w ! i))"

text \<open>
  A directory entry is a crash artifact when \<^verbatim>\<open>scan_crash_dir\<close>'s test lets it through.
  An entry is listed when it names a file of the store directory.  \<open>meta_error\<close> is
  the exception that \<^verbatim>\<open>json.load\<close> raises on the entry's metadata file, if that file
  exists and \<^verbatim>\<open>json.load\<close> raises on it; the entry's metadata is corrupt when there is
  one.  \<open>scan_error\<close> is that exception for the first artifact with corrupt metadata
  in a list of entries.
\<close>

definition is_crash :: "string \<Rightarrow> bool" where
  "is_crash filename \<longleftrightarrow> snd (splitext filename) = ''.crash''"

definition listed :: "world \<Rightarrow> string \<Rightarrow> bool" where
  "listed w f \<longleftrightarrow>
     os_path_join (crash_directory (ctrl w)) f \<in> fst ` set (files w)
     \<and> basename (os_path_join (crash_directory (ctrl w)) f) = f"

definition meta_error :: "world \<Rightarrow> string \<Rightarrow> exn option" where
  "meta_error w f =
     (case map_of (files w)
             (os_path_join (crash_directory (ctrl w)) (fst (splitext f) @ ''.meta'')) of
        None \<Rightarrow> None
      | Some d \<Rightarrow> (case json_load d of Inl e \<Rightarrow> Some e | Inr _ \<Rightarrow> None))"

definition corrupt_meta :: "world \<Rightarrow> string \<Rightarrow> bool" where
  "corrupt_meta w f \<longleftrightarrow> meta_error w f \<noteq> None"

definition first_corrupt :: "world \<Rightarrow> string \<Rightarrow> bool" where
  "first_corrupt w f \<longleftrightarrow> is_crash f \<and> corrupt_meta w f"

definition scan_error :: "world \<Rightarrow> string list \<Rightarrow> exn option" where
  "scan_error w names =
     (case find (first_corrupt w) names of None \<Rightarrow> None | Some g \<Rightarrow> meta_error w g)"

text \<open>
  What the loop of \<^verbatim>\<open>scan_crash_dir\<close> leaves alone (\<open>scan_frame\<close>), and what it has
  done once the entries \<open>cs\<close> have been turned into the reports \<open>refs\<close> (\<open>scanned\<close>).
\<close>

definition scan_frame :: "world \<Rightarrow> world \<Rightarrow> bool" where
  "scan_frame w w' \<longleftrightarrow>
     files w' = files w \<and> writable w' = writable w \<and> pending w' = pending w
     \<and> trace w' = trace w \<and> crash_directory (ctrl w') = crash_directory (ctrl w)
     \<and> dry_run (ctrl w') = dry_run (ctrl w) \<and> crashdb_spec (ctrl w') = crashdb_spec (ctrl w)
     \<and> take (length (objs w)) (objs w') = objs w \<and> length (objs w) \<le> length (objs w')
     \<and> take (length (fobjs w)) (fobjs w') = fobjs w \<and> length (fobjs w) \<le> length (fobjs w')"

definition scanned :: "string list \<Rightarrow> world \<Rightarrow> world \<Rightarrow> nat list \<Rightarrow> bool" where
  "scanned cs w w' refs \<longleftrightarrow>
     scan_frame w w' \<and> reports (ctrl w') = reports (ctrl w) @ refs
     \<and> length refs = length cs \<and> distinct refs
     \<and> (\<forall>i < length cs.
           length (objs w) \<le> refs ! i \<and> refs ! i < length (objs w')
           \<and> base (objs w' ! (refs ! i)) = fst (splitext (cs ! i))
           \<and> state (objs w' ! (refs ! i)) = LOADING
           \<and> (\<exists>fo. fileobj (objs w' ! (refs ! i)) = Some fo))"

section \<open>Example stores and hosts\<close>

text \<open>
  A host on which every step of the diagnostic library succeeds; its process
  information holds the two fields that \<^verbatim>\<open>add_info\<close> deletes afterwards.
\<close>

definition host_ok :: env where
  "host_ok =
     \<lparr>SNAP_REVISION = None,
      add_proc_info = (\<lambda>p. (None, dict_set (dict_set p ''ExecutableTimestamp'' ''1573000000'')
                                     ''ProcMaps'' ''00400000-00401000'')),
      add_os_info = (\<lambda>p. (None, p)),
      add_hooks_info = (\<lambda>p. (None, p)),
      attach_hardware = (\<lambda>p. (None, p)),
      pr_write = (\<lambda>p. (''ProblemType: Bug'', None)),
      pr_load = (\<lambda>d p. (None, p)),
      class_attr = (\<lambda>s. False),
      cwd = ''/'',
      realpath = (\<lambda>s. s),
      mountinfo = Inr [],
      list_devices = (\<lambda>d. Inr [])\<rparr>"

text \<open>
  The same host with a mount table of one line, the root file system, and the same
  host without a readable mount table.
\<close>

definition host_root_mounted :: env where
  "host_root_mounted =
     host_ok\<lparr>mountinfo :=
       Inr [''22 1 8:1 / / rw,relatime shared:1 - ext4 /dev/sda1 rw,errors=remount-ro'']\<rparr>"

definition host_no_proc :: env where
  "host_no_proc = host_ok\<lparr>mountinfo := Inl FileNotFoundError\<rparr>"

text \<open>
  A host on which the store directory is a mount point of its own and the device
  lookup fails.
\<close>

definition host_no_udev :: env where
  "host_no_udev =
     host_ok\<lparr>mountinfo :=
               Inr [''30 22 8:3 / /var/crash rw,relatime shared:5 - ext4 /dev/sda3 rw''],
             list_devices := (\<lambda>d. Inl (Failure ''pyudev''))\<rparr>"

text \<open>An empty, writable store under the root directory.\<close>

definition empty_store :: world where
  "empty_store =
     \<lparr>files = [], writable = True, fobjs = [], objs = [],
      ctrl = ErrorController_init ''/'' False, pending = [], trace = []\<rparr>"

text \<open>
  The store after one report has been created in it, and that store once it can no
  longer be written.
\<close>

definition fresh_report_store :: world where
  "fresh_report_store =
     snd (create_report ''1573000000.000000001'' ''Wed Nov  6 10:00:00 2019'' UI empty_store)"

definition readonly_report_store :: world where
  "readonly_report_store = fresh_report_store\<lparr>writable := False\<rparr>"

text \<open>A hook that attaches nothing, and one that fails.\<close>

definition hook_ok :: pr_proc where
  "hook_ok p = (None, p)"

definition hook_failing :: pr_proc where
  "hook_failing p = (Some (Failure ''hook''), p)"

text \<open>
  A store with an older artifact \<^verbatim>\<open>a\<close> and a newer artifact \<^verbatim>\<open>b\<close> with its metadata,
  a store with three artifacts in which the metadata of the middle one is not
  valid JSON, and the same store with metadata that is not text.
\<close>

definition two_report_store :: world where
  "two_report_store =
     empty_store\<lparr>files :=
       [(''/var/crash/1573000000.000000001.ui.crash'', Blob ''a''),
        (''/var/crash/1573000001.000000001.ui.crash'', Blob ''b''),
        (''/var/crash/1573000001.000000001.ui.meta'', JsonDoc (JObj [(''kind'', JStr ''UI'')]))]\<rparr>"

definition corrupt_meta_store :: world where
  "corrupt_meta_store =
     empty_store\<lparr>files :=
       [(''/var/crash/1.ui.crash'', Blob ''a''),
        (''/var/crash/2.ui.crash'', Blob ''b''),
        (''/var/crash/2.ui.meta'', Blob ''{''),
        (''/var/crash/3.ui.crash'', Blob ''c'')]\<rparr>"

definition undecodable_meta_store :: world where
  "undecodable_meta_store =
     empty_store\<lparr>files :=
       [(''/var/crash/1.ui.crash'', Blob ''a''),
        (''/var/crash/2.ui.crash'', Blob ''b''),
        (''/var/crash/2.ui.meta'', Undecodable [CHR 0xFF]),
        (''/var/crash/3.ui.crash'', Blob ''c'')]\<rparr>"

section \<open>Basic facts\<close>


lemma and_then_Inl [simp]: "and_then (Inl e, w) f = (Inl e, w)"
  by (simp add: and_then_def)

lemma and_then_Inr [simp]: "and_then (Inr a, w) f = f a w"
  by (simp add: and_then_def)

lemma upd_at_nth [simp]: "i < length xs \<Longrightarrow> upd_at i g xs ! i = g (xs ! i)"
  by (simp add: upd_at_def)

lemma upd_at_nth_other [simp]: "j \<noteq> i \<Longrightarrow> upd_at i g xs ! j = xs ! j"
  by (simp add: upd_at_def)

lemma length_upd_at [simp]: "length (upd_at i g xs) = length xs"
  by (simp add: upd_at_def)

lemma upd_at_nth_if: "upd_at i g xs ! j = (if j = i \<and> i < length xs then g (xs ! i) else xs ! j)"
  by (simp add: upd_at_def)

subsection \<open>The work of \<^verbatim>\<open>add_info\<close> changes artifacts and file contents only\<close>

lemma artifact_only_refl [simp]: "artifact_only w w"
  by (simp add: artifact_only_def)

lemma artifact_only_trans: "artifact_only w w1 \<Longrightarrow> artifact_only w1 w2 \<Longrightarrow> artifact_only w w2"
  by (simp add: artifact_only_def)

lemma artifact_only_and_then:
  assumes "artifact_only w (snd m)"
    and "\<And>a w1. artifact_only w w1 \<Longrightarrow> artifact_only w (snd (f a w1))"
  shows "artifact_only w (snd (and_then m f))"
  using assms by (cases m; cases "fst m") (auto simp: and_then_def)

lemma artifact_only_run_proc: "artifact_only w (snd (run_proc f r w))"
  by (auto simp: run_proc_def artifact_only_def upd_report_def upd_at_nth_if split: prod.splits option.splits)

lemma artifact_only_write_report: "artifact_only w (snd (write_report env r w))"
  by (auto simp: write_report_def artifact_only_def write_file_def split: prod.splits option.splits)

lemma artifact_only_bg_add_info: "artifact_only w (snd (bg_add_info env hook r w))"
  unfolding bg_add_info_def
  by (intro artifact_only_and_then artifact_only_trans [OF _ artifact_only_run_proc]
      artifact_only_trans [OF _ artifact_only_write_report] artifact_only_run_proc)

subsection \<open>Populating in the background\<close>


lemma add_info_wait:
  "add_info env r hook True w =
     bg_add_info env hook r (emit (LogDebug (''begin adding info for report '' @ base (objs w ! r))) w)"
  by (simp add: add_info_def)

lemma changed_signals_append [simp]:
  "changed_signals r (xs @ ys) = changed_signals r xs + changed_signals r ys"
  by (simp add: changed_signals_def)

lemma add_info_wait_unchanged:
  fixes env r hook w
  defines "w' \<equiv> snd (add_info env r hook True w)"
  shows "state (objs w' ! i) = state (objs w ! i)"
    and "fileobj (objs w' ! i) = fileobj (objs w ! i)"
    and "fobjs w' = fobjs w"
    and "changed_signals j (trace w') = changed_signals j (trace w)"
    and "pending w' = pending w"
proof -
  let ?w1 = "emit (LogDebug (''begin adding info for report '' @ base (objs w ! r))) w"
  have "artifact_only ?w1 w'"
    unfolding w'_def add_info_wait by (rule artifact_only_bg_add_info)
  then show "state (objs w' ! i) = state (objs w ! i)"
    and "fileobj (objs w' ! i) = fileobj (objs w ! i)"
    and "fobjs w' = fobjs w"
    and "changed_signals j (trace w') = changed_signals j (trace w)"
    and "pending w' = pending w"
    by (simp_all add: artifact_only_def emit_def changed_signals_def)
qed

lemma add_info_background:
  "add_info env r hook False w =
     (Inr (), (emit (LogDebug (''begin adding info for report '' @ base (objs w ! r))) w)
                \<lparr>pending := pending w @ [AddInfoTask r hook]\<rparr>)"
  by (simp add: add_info_def run_in_bg_def emit_def)

lemma complete_add_info_task:
  fixes env i w r hook f
  defines "w0 \<equiv> w\<lparr>pending := take i (pending w) @ drop (Suc i) (pending w)\<rparr>"
  defines "w' \<equiv> snd (complete_task env i w)"
  assumes i: "i < length (pending w)" and t: "pending w ! i = AddInfoTask r hook"
    and r: "r < length (objs w)" and f: "fileobj (objs w ! r) = Some f"
  shows "fst (complete_task env i w) = Inr ()"
    and "state (objs w' ! r) =
           (case fst (bg_add_info env hook r w0) of Inl e \<Rightarrow> ERROR_GENERATING | Inr u \<Rightarrow> DONE)"
    and "fileobj (objs w' ! r) = None"
    and "f < length (fobjs w) \<Longrightarrow> closed (fobjs w' ! f)"
    and "changed_signals r (trace w') = Suc (changed_signals r (trace w))"
    and "fst (bg_add_info env hook r w0) = Inl e \<Longrightarrow>
           LogException ''adding info to problem report failed'' e \<in> set (trace w')"
proof -
  obtain fut w1 where b: "bg_add_info env hook r w0 = (fut, w1)"
    by (cases "bg_add_info env hook r w0")
  have "artifact_only w0 (snd (bg_add_info env hook r w0))"
    by (rule artifact_only_bg_add_info)
  with b have a: "artifact_only w0 w1" by simp
  have c: "complete_task env i w = added_info r fut w1"
    using i t b by (simp add: complete_task_def w0_def)
  from a r f have w1: "fileobj (objs w1 ! r) = Some f" "r < length (objs w1)"
    "fobjs w1 = fobjs w" "trace w1 = trace w"
    by (simp_all add: artifact_only_def w0_def)
  show "fst (complete_task env i w) = Inr ()"
    using w1 by (cases fut) (simp_all add: c added_info_def close_and_notify_def Let_def
        emit_def upd_report_def)
  show "state (objs w' ! r) =
           (case fst (bg_add_info env hook r w0) of Inl e \<Rightarrow> ERROR_GENERATING | Inr u \<Rightarrow> DONE)"
    using w1 by (cases fut) (simp_all add: w'_def c b added_info_def close_and_notify_def Let_def
        emit_def upd_report_def close_def)
  show "fileobj (objs w' ! r) = None"
    using w1 by (cases fut) (simp_all add: w'_def c b added_info_def close_and_notify_def Let_def
        emit_def upd_report_def close_def)
  show "closed (fobjs w' ! f)" if "f < length (fobjs w)"
    using w1 that by (cases fut) (simp_all add: w'_def c b added_info_def close_and_notify_def Let_def
        emit_def upd_report_def close_def)
  show "changed_signals r (trace w') = Suc (changed_signals r (trace w))"
    using w1 by (cases fut) (simp_all add: w'_def c b added_info_def close_and_notify_def Let_def
        emit_def upd_report_def close_def changed_signals_def)
  show "LogException ''adding info to problem report failed'' e \<in> set (trace w')"
    if "fst (bg_add_info env hook r w0) = Inl e"
    using w1 that by (cases fut) (simp_all add: w'_def c b added_info_def close_and_notify_def Let_def
        emit_def upd_report_def close_def)
qed

subsection \<open>Evaluating the operations on a given store\<close>


lemma upd_at_simps:
  "upd_at i g [] = []"
  "upd_at 0 g (x # xs) = g x # xs"
  "upd_at (Suc i) g (x # xs) = x # upd_at i g xs"
  by (simp_all add: upd_at_def)

lemmas world_eval =
  open_w_def [where w = "\<lparr>files = fs, writable = wr, fobjs = fo, objs = os, ctrl = c, pending = pe, trace = tr\<rparr>"]
  open_r_def [where w = "\<lparr>files = fs, writable = wr, fobjs = fo, objs = os, ctrl = c, pending = pe, trace = tr\<rparr>"]
  close_def [where w = "\<lparr>files = fs, writable = wr, fobjs = fo, objs = os, ctrl = c, pending = pe, trace = tr\<rparr>"]
  read_file_def [where w = "\<lparr>files = fs, writable = wr, fobjs = fo, objs = os, ctrl = c, pending = pe, trace = tr\<rparr>"]
  write_file_def [where w = "\<lparr>files = fs, writable = wr, fobjs = fo, objs = os, ctrl = c, pending = pe, trace = tr\<rparr>"]
  listdir_def [where w = "\<lparr>files = fs, writable = wr, fobjs = fo, objs = os, ctrl = c, pending = pe, trace = tr\<rparr>"]
  upd_report_def [where w = "\<lparr>files = fs, writable = wr, fobjs = fo, objs = os, ctrl = c, pending = pe, trace = tr\<rparr>"]
  alloc_report_def [where w = "\<lparr>files = fs, writable = wr, fobjs = fo, objs = os, ctrl = c, pending = pe, trace = tr\<rparr>"]
  emit_def [where w = "\<lparr>files = fs, writable = wr, fobjs = fo, objs = os, ctrl = c, pending = pe, trace = tr\<rparr>"]
  path_with_ext_def [where w = "\<lparr>files = fs, writable = wr, fobjs = fo, objs = os, ctrl = c, pending = pe, trace = tr\<rparr>"]
  meta_path_def [where w = "\<lparr>files = fs, writable = wr, fobjs = fo, objs = os, ctrl = c, pending = pe, trace = tr\<rparr>"]
  set_meta_def [where w = "\<lparr>files = fs, writable = wr, fobjs = fo, objs = os, ctrl = c, pending = pe, trace = tr\<rparr>"]
  mark_seen_def [where w = "\<lparr>files = fs, writable = wr, fobjs = fo, objs = os, ctrl = c, pending = pe, trace = tr\<rparr>"]
  new_def [where w = "\<lparr>files = fs, writable = wr, fobjs = fo, objs = os, ctrl = c, pending = pe, trace = tr\<rparr>"]
  from_file_def [where w = "\<lparr>files = fs, writable = wr, fobjs = fo, objs = os, ctrl = c, pending = pe, trace = tr\<rparr>"]
  run_proc_def [where w = "\<lparr>files = fs, writable = wr, fobjs = fo, objs = os, ctrl = c, pending = pe, trace = tr\<rparr>"]
  write_report_def [where w = "\<lparr>files = fs, writable = wr, fobjs = fo, objs = os, ctrl = c, pending = pe, trace = tr\<rparr>"]
  bg_add_info_def [where w = "\<lparr>files = fs, writable = wr, fobjs = fo, objs = os, ctrl = c, pending = pe, trace = tr\<rparr>"]
  close_and_notify_def [where w = "\<lparr>files = fs, writable = wr, fobjs = fo, objs = os, ctrl = c, pending = pe, trace = tr\<rparr>"]
  added_info_def [where w = "\<lparr>files = fs, writable = wr, fobjs = fo, objs = os, ctrl = c, pending = pe, trace = tr\<rparr>"]
  run_in_bg_def [where w = "\<lparr>files = fs, writable = wr, fobjs = fo, objs = os, ctrl = c, pending = pe, trace = tr\<rparr>"]
  add_info_def [where w = "\<lparr>files = fs, writable = wr, fobjs = fo, objs = os, ctrl = c, pending = pe, trace = tr\<rparr>"]
  bg_load_def [where w = "\<lparr>files = fs, writable = wr, fobjs = fo, objs = os, ctrl = c, pending = pe, trace = tr\<rparr>"]
  load_def [where w = "\<lparr>files = fs, writable = wr, fobjs = fo, objs = os, ctrl = c, pending = pe, trace = tr\<rparr>"]
  report_loaded_def [where w = "\<lparr>files = fs, writable = wr, fobjs = fo, objs = os, ctrl = c, pending = pe, trace = tr\<rparr>"]
  call_def [where w = "\<lparr>files = fs, writable = wr, fobjs = fo, objs = os, ctrl = c, pending = pe, trace = tr\<rparr>"]
  loaded_def [where w = "\<lparr>files = fs, writable = wr, fobjs = fo, objs = os, ctrl = c, pending = pe, trace = tr\<rparr>"]
  complete_task_def [where w = "\<lparr>files = fs, writable = wr, fobjs = fo, objs = os, ctrl = c, pending = pe, trace = tr\<rparr>"]
  append_report_def [where w = "\<lparr>files = fs, writable = wr, fobjs = fo, objs = os, ctrl = c, pending = pe, trace = tr\<rparr>"]
  insert_report_def [where w = "\<lparr>files = fs, writable = wr, fobjs = fo, objs = os, ctrl = c, pending = pe, trace = tr\<rparr>"]
  scan_loop.simps [where w = "\<lparr>files = fs, writable = wr, fobjs = fo, objs = os, ctrl = c, pending = pe, trace = tr\<rparr>"]
  scan_crash_dir_def [where w = "\<lparr>files = fs, writable = wr, fobjs = fo, objs = os, ctrl = c, pending = pe, trace = tr\<rparr>"]
  create_report_def [where w = "\<lparr>files = fs, writable = wr, fobjs = fo, objs = os, ctrl = c, pending = pe, trace = tr\<rparr>"]
  for fs wr fo os c pe tr

lemmas pure_eval = upd_at_simps Let_def setitem_def meta_get_def dict_get_def dict_del_def set_field_def
  del_field_def append_bytes_def json_load_def os_path_join_def ErrorController_init_def

lemmas and_then_weak_cong = arg_cong [where f = "\<lambda>m. and_then m f" for f]

lemma host_ok_simps:
  "SNAP_REVISION host_ok = None"
  "add_proc_info host_ok = (\<lambda>p. (None, dict_set (dict_set p ''ExecutableTimestamp'' ''1573000000'')
                                     ''ProcMaps'' ''00400000-00401000''))"
  "add_os_info host_ok = (\<lambda>p. (None, p))"
  "add_hooks_info host_ok = (\<lambda>p. (None, p))"
  "attach_hardware host_ok = (\<lambda>p. (None, p))"
  "pr_write host_ok = (\<lambda>p. (''ProblemType: Bug'', None))"
  "pr_load host_ok = (\<lambda>d p. (None, p))"
  by (simp_all add: host_ok_def)

lemma fresh_report_store_eq:
  "fresh_report_store =
     \<lparr>files = [(''/var/crash/1573000000.000000001.'' @ lower ''UI'' @ ''.crash'', Blob []),
               (''/var/crash/1573000000.000000001.'' @ lower ''UI'' @ ''.meta'',
                JsonDoc (JObj [(''kind'', JStr ''UI'')]))],
      writable = True,
      fobjs = [\<lparr>fname = ''/var/crash/1573000000.000000001.'' @ lower ''UI'' @ ''.crash'',
                writing = True, closed = False\<rparr>,
               \<lparr>fname = ''/var/crash/1573000000.000000001.'' @ lower ''UI'' @ ''.meta'',
                writing = True, closed = True\<rparr>],
      objs = [\<lparr>base = ''1573000000.000000001.'' @ lower ''UI'',
               pr = [(''ProblemType'', ''Bug''), (''Date'', ''Wed Nov  6 10:00:00 2019''),
                     (''CrashDB'', repr_dict [(''impl'', ''launchpad''), (''project'', ''subiquity'')])],
               state = INCOMPLETE, fileobj = Some 0, meta = JObj [(''kind'', JStr ''UI'')]\<rparr>],
      ctrl = \<lparr>crash_directory = ''/var/crash'',
              crashdb_spec = [(''impl'', ''launchpad''), (''project'', ''subiquity'')],
              dry_run = False, reports = [0]\<rparr>,
      pending = [], trace = []\<rparr>"
  by (simp add: fresh_report_store_def empty_store_def world_eval pure_eval cong: and_then_weak_cong)

section \<open>Creating a report\<close>

lemma member_of_kind_name [simp]: "member_of_name (kind_name k) = Some k"
  by (cases k) (simp_all add: member_of_name_def)

text \<open>
  C1.  For every kind, when \<^verbatim>\<open>create_report(kind)\<close> returns a report, that report is in
  state \<^verbatim>\<open>INCOMPLETE\<close>, its \<^verbatim>\<open>kind\<close> accessor gives the kind it was created with, and it
  is at position 0 of the controller's report sequence, in front of the reports that
  were there before.
\<close>

theorem create_report_returns:
  assumes "fst (create_report now date k w) = Inr r"
  shows "state (objs (snd (create_report now date k w)) ! r) = INCOMPLETE
       \<and> kind env (objs (snd (create_report now date k w)) ! r) = Inr (Member k)
       \<and> reports (ctrl (snd (create_report now date k w))) ! 0 = r
       \<and> reports (ctrl (snd (create_report now date k w))) = r # reports (ctrl w)"
  using assms
  by (auto simp: create_report_def new_def set_meta_def open_w_def alloc_report_def
      upd_report_def setitem_def insert_report_def close_def write_file_def Let_def
      kind_def meta_get_def getattr_ErrorReportKind_def dict_get_def and_then_def upd_at_def
      split: if_splits)

theorem create_report_returns_witness:
  "fst (create_report ''1573000000.000000001'' ''Wed Nov  6 10:00:00 2019'' UI empty_store) = Inr 0
   \<and> state (objs fresh_report_store ! 0) = INCOMPLETE
   \<and> kind host_ok (objs fresh_report_store ! 0) = Inr (Member UI)
   \<and> reports (ctrl fresh_report_store) ! 0 = 0
   \<and> reports (ctrl fresh_report_store) = [0]"
proof -
  have h: "fst (create_report ''1573000000.000000001'' ''Wed Nov  6 10:00:00 2019'' UI empty_store)
             = Inr 0"
    by (simp add: empty_store_def world_eval pure_eval cong: and_then_weak_cong)
  have c: "reports (ctrl empty_store) = []"
    by (simp add: empty_store_def ErrorController_init_def)
  from create_report_returns [OF h, of host_ok] h c show ?thesis
    by (simp add: fresh_report_store_def)
qed

section \<open>Populating a report while the caller waits\<close>

text \<open>
  C2.  On a freshly created report, with a host on which every step of the populate
  sequence succeeds, \<^verbatim>\<open>add_info(hook, wait=True)\<close> returns normally and leaves the report
  as it was: the state is still \<^verbatim>\<open>INCOMPLETE\<close>, the report still holds its file object,
  that file object is not closed, and no \<^verbatim>\<open>"changed"\<close> signal has been emitted.  The
  completion handler \<^verbatim>\<open>added_info\<close>, which does all of this when the work runs in the
  background (\<open>complete_add_info_task\<close>), is never called on this path.
\<close>

theorem add_info_wait_stays_incomplete:
  "fst (add_info host_ok 0 hook_ok True fresh_report_store) = Inr ()
   \<and> state (objs (snd (add_info host_ok 0 hook_ok True fresh_report_store)) ! 0) = INCOMPLETE
   \<and> fileobj (objs (snd (add_info host_ok 0 hook_ok True fresh_report_store)) ! 0) = Some 0
   \<and> \<not> closed (fobjs (snd (add_info host_ok 0 hook_ok True fresh_report_store)) ! 0)
   \<and> changed_signals 0 (trace (snd (add_info host_ok 0 hook_ok True fresh_report_store))) = 0"
proof -
  have "fst (add_info host_ok 0 hook_ok True fresh_report_store) = Inr ()"
    by (simp add: fresh_report_store_eq world_eval pure_eval host_ok_simps hook_ok_def
        cong: and_then_weak_cong)
  moreover have "changed_signals 0 (trace fresh_report_store) = 0"
    by (simp add: fresh_report_store_eq changed_signals_def)
  moreover have "state (objs fresh_report_store ! 0) = INCOMPLETE"
    "fileobj (objs fresh_report_store ! 0) = Some 0"
    "\<not> closed (fobjs fresh_report_store ! 0)"
    by (simp_all add: fresh_report_store_eq)
  ultimately show ?thesis
    by (simp add: add_info_wait_unchanged)
qed

text \<open>
  C3.  On a freshly created report, when the hook fails, \<^verbatim>\<open>add_info(hook, wait=True)\<close>
  raises the hook's exception to its caller; the state is still \<^verbatim>\<open>INCOMPLETE\<close>, not
  \<^verbatim>\<open>ERROR_GENERATING\<close>; the file object is neither closed nor cleared; no \<^verbatim>\<open>"changed"\<close>
  signal is emitted; and the only event is the debug record written on entry, so the
  failure is not logged.
\<close>

theorem add_info_wait_reraises:
  "fst (add_info host_ok 0 hook_failing True fresh_report_store) = Inl (Failure ''hook'')
   \<and> state (objs (snd (add_info host_ok 0 hook_failing True fresh_report_store)) ! 0) = INCOMPLETE
   \<and> fileobj (objs (snd (add_info host_ok 0 hook_failing True fresh_report_store)) ! 0) = Some 0
   \<and> \<not> closed (fobjs (snd (add_info host_ok 0 hook_failing True fresh_report_store)) ! 0)
   \<and> changed_signals 0 (trace (snd (add_info host_ok 0 hook_failing True fresh_report_store))) = 0
   \<and> trace (snd (add_info host_ok 0 hook_failing True fresh_report_store))
       = [LogDebug (''begin adding info for report '' @ base (objs fresh_report_store ! 0))]"
  by (simp add: fresh_report_store_eq world_eval pure_eval host_ok_simps hook_failing_def
        changed_signals_def cong: and_then_weak_cong)

section \<open>Recovering a report from its file\<close>


lemma from_file_missing:
  "fpath \<notin> fst ` set (files w) \<Longrightarrow> from_file fpath w = (Inl FileNotFoundError, w)"
  by (simp add: from_file_def open_r_def)

lemma from_file_no_metadata:
  assumes "fpath \<in> fst ` set (files w)" and "meta_file_of w fpath \<notin> fst ` set (files w)"
  shows "from_file fpath w =
           (Inr (length (objs w)),
            w\<lparr>fobjs := fobjs w @ [\<lparr>fname = fpath, writing = False, closed = False\<rparr>],
              objs := objs w @ [loading_report (stem fpath) (length (fobjs w)) (JObj [])]\<rparr>)"
  using assms
  by (simp add: from_file_def open_r_def alloc_report_def meta_path_def path_with_ext_def
      meta_file_of_def stem_def loading_report_def Let_def)

lemma from_file_metadata:
  assumes "fpath \<in> fst ` set (files w)" and "map_of (files w) (meta_file_of w fpath) = Some d"
  shows "from_file fpath w =
           (case json_load d of
              Inl e \<Rightarrow>
                (Inl e,
                 w\<lparr>fobjs := fobjs w @ [\<lparr>fname = fpath, writing = False, closed = False\<rparr>,
                                       \<lparr>fname = meta_file_of w fpath, writing = False, closed = True\<rparr>],
                   objs := objs w @ [loading_report (stem fpath) (length (fobjs w)) (JObj [])]\<rparr>)
            | Inr m \<Rightarrow>
                (Inr (length (objs w)),
                 w\<lparr>fobjs := fobjs w @ [\<lparr>fname = fpath, writing = False, closed = False\<rparr>,
                                       \<lparr>fname = meta_file_of w fpath, writing = False, closed = True\<rparr>],
                   objs := objs w @ [loading_report (stem fpath) (length (fobjs w)) m]\<rparr>))"
proof -
  from assms(2) have "meta_file_of w fpath \<in> fst ` set (files w)"
    by (metis domI dom_map_of_conv_image_fst)
  with assms show ?thesis
    by (cases "json_load d")
       (simp_all add: from_file_def open_r_def alloc_report_def meta_path_def path_with_ext_def
         meta_file_of_def stem_def loading_report_def Let_def read_file_def dict_get_def
         close_def upd_report_def upd_at_def nth_append list_update_append)
qed

lemma kind_empty_meta: "meta rep = JObj [] \<Longrightarrow> kind env rep = Inr (Member UNKNOWN)"
  by (simp add: kind_def meta_get_def dict_get_def getattr_ErrorReportKind_def member_of_name_def)

text \<open>
  C7.  When the artifact file exists and the metadata file that \<^verbatim>\<open>from_file\<close> looks for
  (the store directory joined with the artifact's stem and \<^verbatim>\<open>.meta\<close>, which for an
  artifact of the store directory is the file next to it) does not, \<^verbatim>\<open>from_file\<close>
  returns a new report whose \<^verbatim>\<open>meta\<close> is the empty mapping, whose state is \<^verbatim>\<open>LOADING\<close>
  and whose \<^verbatim>\<open>kind\<close> accessor returns \<^verbatim>\<open>UNKNOWN\<close>.
\<close>

theorem from_file_without_metadata:
  assumes "fpath \<in> fst ` set (files w)"
    and "os_path_join (crash_directory (ctrl w)) (fst (splitext (basename fpath)) @ ''.meta'')
           \<notin> fst ` set (files w)"
  shows "fst (from_file fpath w) = Inr (length (objs w))
       \<and> meta (objs (snd (from_file fpath w)) ! length (objs w)) = JObj []
       \<and> state (objs (snd (from_file fpath w)) ! length (objs w)) = LOADING
       \<and> kind env (objs (snd (from_file fpath w)) ! length (objs w)) = Inr (Member UNKNOWN)"
proof -
  from assms(2) have "meta_file_of w fpath \<notin> fst ` set (files w)"
    by (simp add: meta_file_of_def stem_def)
  with assms(1) show ?thesis
    by (simp add: from_file_no_metadata loading_report_def kind_empty_meta)
qed

theorem from_file_without_metadata_witness:
  "''/var/crash/1573000000.000000001.ui.crash'' \<in> fst ` set (files two_report_store)
   \<and> os_path_join (crash_directory (ctrl two_report_store))
        (fst (splitext (basename ''/var/crash/1573000000.000000001.ui.crash'')) @ ''.meta'')
        \<notin> fst ` set (files two_report_store)
   \<and> fst (from_file ''/var/crash/1573000000.000000001.ui.crash'' two_report_store) = Inr 0
   \<and> meta (objs (snd (from_file ''/var/crash/1573000000.000000001.ui.crash'' two_report_store)) ! 0)
        = JObj []
   \<and> state (objs (snd (from_file ''/var/crash/1573000000.000000001.ui.crash'' two_report_store)) ! 0)
        = LOADING
   \<and> kind host_ok
        (objs (snd (from_file ''/var/crash/1573000000.000000001.ui.crash'' two_report_store)) ! 0)
        = Inr (Member UNKNOWN)"
proof -
  have a: "''/var/crash/1573000000.000000001.ui.crash'' \<in> fst ` set (files two_report_store)"
    by (simp add: two_report_store_def empty_store_def)
  have b: "os_path_join (crash_directory (ctrl two_report_store))
        (fst (splitext (basename ''/var/crash/1573000000.000000001.ui.crash'')) @ ''.meta'')
        \<notin> fst ` set (files two_report_store)"
    by (simp add: two_report_store_def empty_store_def ErrorController_init_def os_path_join_def
        basename_def splitext_def rfind_def splitext_scan.simps)
  have c: "length (objs two_report_store) = 0"
    by (simp add: two_report_store_def empty_store_def)
  from from_file_without_metadata [OF a b, of host_ok] a b c show ?thesis
    by simp
qed

section \<open>Scanning the store directory\<close>


lemma scan_frame_refl [simp]: "scan_frame w w"
  by (simp add: scan_frame_def)

lemma scan_frame_trans: "scan_frame w w1 \<Longrightarrow> scan_frame w1 w2 \<Longrightarrow> scan_frame w w2"
  unfolding scan_frame_def
  by (auto simp: take_take min_def dest: arg_cong [where f = "take (length (objs w))"]
        arg_cong [where f = "take (length (fobjs w))"])

lemma listed_frame: "scan_frame w w' \<Longrightarrow> listed w' f = listed w f"
  by (simp add: scan_frame_def listed_def)

lemma meta_error_frame: "scan_frame w w' \<Longrightarrow> meta_error w' f = meta_error w f"
  by (simp add: scan_frame_def meta_error_def)

lemma corrupt_meta_frame: "scan_frame w w' \<Longrightarrow> corrupt_meta w' f = corrupt_meta w f"
  by (simp add: corrupt_meta_def meta_error_frame)

text \<open>What \<^verbatim>\<open>from_file\<close> does with a listed entry.\<close>

lemma from_file_listed_corrupt:
  assumes "listed w f" and "meta_error w f = Some e"
  shows "fst (from_file (os_path_join (crash_directory (ctrl w)) f) w) = Inl e"
    and "scan_frame w (snd (from_file (os_path_join (crash_directory (ctrl w)) f) w))"
    and "reports (ctrl (snd (from_file (os_path_join (crash_directory (ctrl w)) f) w)))
           = reports (ctrl w)"
proof -
  let ?p = "os_path_join (crash_directory (ctrl w)) f"
  from assms(1) have p: "?p \<in> fst ` set (files w)"
    by (simp add: listed_def)
  from assms(1) have s: "stem ?p = fst (splitext f)"
    by (simp add: listed_def stem_def)
  from assms(2) obtain d where m: "map_of (files w) (meta_file_of w ?p) = Some d"
    and e: "json_load d = Inl e"
    by (auto simp: meta_error_def meta_file_of_def s split: option.splits sum.splits)
  show "fst (from_file ?p w) = Inl e"
    by (simp add: from_file_metadata [OF p m] e)
  show "scan_frame w (snd (from_file ?p w))"
    by (simp add: from_file_metadata [OF p m] e scan_frame_def)
  show "reports (ctrl (snd (from_file ?p w))) = reports (ctrl w)"
    by (simp add: from_file_metadata [OF p m] e)
qed

lemma from_file_listed_ok:
  assumes "listed w f" and "\<not> corrupt_meta w f"
  shows "fst (from_file (os_path_join (crash_directory (ctrl w)) f) w) = Inr (length (objs w))"
    and "scan_frame w (snd (from_file (os_path_join (crash_directory (ctrl w)) f) w))"
    and "reports (ctrl (snd (from_file (os_path_join (crash_directory (ctrl w)) f) w)))
           = reports (ctrl w)"
    and "\<exists>m. objs (snd (from_file (os_path_join (crash_directory (ctrl w)) f) w))
           = objs w @ [loading_report (fst (splitext f)) (length (fobjs w)) m]"
proof -
  let ?p = "os_path_join (crash_directory (ctrl w)) f"
  from assms(1) have p: "?p \<in> fst ` set (files w)" and s: "stem ?p = fst (splitext f)"
    by (simp_all add: listed_def stem_def)
  consider (none) "meta_file_of w ?p \<notin> fst ` set (files w)"
    | (doc) j where "map_of (files w) (meta_file_of w ?p) = Some (JsonDoc j)"
  proof (cases "map_of (files w) (meta_file_of w ?p)")
    case None
    then have "meta_file_of w ?p \<notin> fst ` set (files w)"
      by (simp add: map_of_eq_None_iff)
    then show ?thesis by (rule none)
  next
    case (Some d)
    with assms(2) obtain j where "d = JsonDoc j"
      by (cases d) (auto simp: corrupt_meta_def meta_error_def json_load_def meta_file_of_def s)
    with Some show ?thesis by (auto intro: doc)
  qed
  then have "fst (from_file ?p w) = Inr (length (objs w))
      \<and> scan_frame w (snd (from_file ?p w))
      \<and> reports (ctrl (snd (from_file ?p w))) = reports (ctrl w)
      \<and> (\<exists>m. objs (snd (from_file ?p w))
             = objs w @ [loading_report (fst (splitext f)) (length (fobjs w)) m])"
  proof cases
    case none
    show ?thesis
      by (auto simp add: from_file_no_metadata [OF p none] scan_frame_def s)
  next
    case (doc j)
    show ?thesis
      by (auto simp add: from_file_metadata [OF p doc] json_load_def scan_frame_def s)
  qed
  then show "fst (from_file ?p w) = Inr (length (objs w))"
    and "scan_frame w (snd (from_file ?p w))"
    and "reports (ctrl (snd (from_file ?p w))) = reports (ctrl w)"
    and "\<exists>m. objs (snd (from_file ?p w))
           = objs w @ [loading_report (fst (splitext f)) (length (fobjs w)) m]"
    by blast+
qed

text \<open>The loop of \<^verbatim>\<open>scan_crash_dir\<close>, entry by entry.\<close>


lemma first_corrupt_frame: "scan_frame w w' \<Longrightarrow> first_corrupt w' f = first_corrupt w f"
  by (simp add: first_corrupt_def corrupt_meta_frame)

lemma scan_error_Nil [simp]: "scan_error w [] = None"
  by (simp add: scan_error_def)

lemma scan_error_Cons:
  "scan_error w (f # rest) = (if first_corrupt w f then meta_error w f else scan_error w rest)"
  by (simp add: scan_error_def)

lemma scan_error_frame:
  assumes "scan_frame w w'"
  shows "scan_error w' names = scan_error w names"
proof -
  from assms have "first_corrupt w' = first_corrupt w"
    by (auto simp: first_corrupt_frame)
  with assms show ?thesis
    by (simp add: scan_error_def meta_error_frame split: option.splits)
qed

lemma scan_error_None: "scan_error w names = None \<longleftrightarrow> \<not> (\<exists>f\<in>set names. first_corrupt w f)"
  by (induction names) (auto simp: scan_error_Cons first_corrupt_def corrupt_meta_def)

lemma scan_frame_append_report: "scan_frame w (append_report r w)"
  by (simp add: scan_frame_def append_report_def)

lemma scan_frame_nth:
  "scan_frame w w' \<Longrightarrow> i < length (objs w) \<Longrightarrow> objs w' ! i = objs w ! i"
  by (metis nth_take scan_frame_def)

lemma scanned_Nil: "scan_frame w w' \<Longrightarrow> reports (ctrl w') = reports (ctrl w) \<Longrightarrow> scanned [] w w' []"
  by (simp add: scanned_def)

lemma scanned_Cons:
  assumes f1: "scan_frame w w1" and o1: "objs w1 = objs w @ [loading_report (fst (splitext f)) fo m]"
    and r1: "reports (ctrl w1) = reports (ctrl w) @ [length (objs w)]"
    and s: "scanned cs w1 w' refs"
  shows "scanned (f # cs) w w' (length (objs w) # refs)"
proof -
  let ?r = "length (objs w)"
  from s have f2: "scan_frame w1 w'" and r2: "reports (ctrl w') = reports (ctrl w1) @ refs"
    and l: "length refs = length cs" and d: "distinct refs"
    and each: "\<And>i. i < length cs \<Longrightarrow>
           length (objs w1) \<le> refs ! i \<and> refs ! i < length (objs w')
           \<and> base (objs w' ! (refs ! i)) = fst (splitext (cs ! i))
           \<and> state (objs w' ! (refs ! i)) = LOADING
           \<and> (\<exists>fo. fileobj (objs w' ! (refs ! i)) = Some fo)"
    by (simp_all add: scanned_def)
  from f1 f2 have f: "scan_frame w w'" by (rule scan_frame_trans)
  from o1 have len1: "length (objs w1) = Suc ?r" by simp
  from f2 len1 have len': "?r < length (objs w')"
    by (simp add: scan_frame_def)
  from f2 len1 o1 have at: "objs w' ! ?r = loading_report (fst (splitext f)) fo m"
    by (simp add: scan_frame_nth)
  have notin: "?r \<notin> set refs"
  proof
    assume "?r \<in> set refs"
    then obtain i where "i < length refs" and "refs ! i = ?r"
      by (auto simp: in_set_conv_nth)
    with each [of i] l len1 show False by simp
  qed
  have all: "length (objs w) \<le> (?r # refs) ! i \<and> (?r # refs) ! i < length (objs w')
           \<and> base (objs w' ! ((?r # refs) ! i)) = fst (splitext ((f # cs) ! i))
           \<and> state (objs w' ! ((?r # refs) ! i)) = LOADING
           \<and> (\<exists>fo. fileobj (objs w' ! ((?r # refs) ! i)) = Some fo)"
    if "i < length (f # cs)" for i
  proof (cases i)
    case 0
    with len' at show ?thesis by (simp add: loading_report_def)
  next
    case (Suc j)
    with that have "j < length cs" by simp
    from each [OF this] len1 Suc show ?thesis by simp
  qed
  from f r1 r2 l d notin all show ?thesis
    unfolding scanned_def by simp
qed

lemma scan_loop_spec:
  "\<forall>f\<in>set names. listed w f \<Longrightarrow>
   \<exists>refs. scanned (filter is_crash (takeWhile (\<lambda>f. \<not> first_corrupt w f) names)) w
             (snd (scan_loop names to_load w)) refs
         \<and> fst (scan_loop names to_load w)
             = (case scan_error w names of Some e \<Rightarrow> Inl e | None \<Rightarrow> Inr (to_load @ refs))"
proof (induction names arbitrary: to_load w)
  case Nil
  show ?case by (simp add: scanned_Nil scan_loop.simps)
next
  case (Cons f rest)
  let ?p = "os_path_join (crash_directory (ctrl w)) f"
  from Cons.prems have lf: "listed w f" and lrest: "\<forall>g\<in>set rest. listed w g"
    by simp_all
  show ?case
  proof (cases "is_crash f")
    case False
    then have nc: "\<not> first_corrupt w f" by (simp add: first_corrupt_def)
    from False have "scan_loop (f # rest) to_load w = scan_loop rest to_load w"
      by (simp add: is_crash_def scan_loop.simps)
    with Cons.IH [OF lrest, of to_load] False nc show ?thesis by (simp add: scan_error_Cons)
  next
    case True
    show ?thesis
    proof (cases "corrupt_meta w f")
      case c: True
      with True have fc: "first_corrupt w f" by (simp add: first_corrupt_def)
      from c obtain e where me: "meta_error w f = Some e"
        by (auto simp: corrupt_meta_def)
      obtain w1 where r: "from_file ?p w = (Inl e, w1)"
        using from_file_listed_corrupt(1) [OF lf me] by (cases "from_file ?p w") simp
      from from_file_listed_corrupt(2,3) [OF lf me] r
      have "scan_frame w w1" and "reports (ctrl w1) = reports (ctrl w)" by simp_all
      then have "scanned [] w w1 []" by (rule scanned_Nil)
      with True fc r me show ?thesis
        by (auto simp add: is_crash_def scan_loop.simps scan_error_Cons)
    next
      case c: False
      with True have nc: "\<not> first_corrupt w f" by (simp add: first_corrupt_def)
      let ?r = "length (objs w)"
      obtain w1 where r: "from_file ?p w = (Inr ?r, w1)"
        using from_file_listed_ok(1) [OF lf c] by (cases "from_file ?p w") simp
      from from_file_listed_ok(2,3,4) [OF lf c] r
      obtain m where f1: "scan_frame w w1" and r1: "reports (ctrl w1) = reports (ctrl w)"
        and o1: "objs w1 = objs w @ [loading_report (fst (splitext f)) (length (fobjs w)) m]"
        by auto
      let ?w2 = "append_report ?r w1"
      have f2: "scan_frame w ?w2"
        using f1 scan_frame_append_report by (rule scan_frame_trans)
      have o2: "objs ?w2 = objs w @ [loading_report (fst (splitext f)) (length (fobjs w)) m]"
        using o1 by (simp add: append_report_def)
      have r2: "reports (ctrl ?w2) = reports (ctrl w) @ [?r]"
        using r1 by (simp add: append_report_def)
      from lrest f2 have "\<forall>g\<in>set rest. listed ?w2 g"
        by (simp add: listed_frame)
      from Cons.IH [OF this, of "to_load @ [?r]"]
      obtain refs where s: "scanned (filter is_crash (takeWhile (\<lambda>g. \<not> first_corrupt ?w2 g) rest))
                               ?w2 (snd (scan_loop rest (to_load @ [?r]) ?w2)) refs"
        and res: "fst (scan_loop rest (to_load @ [?r]) ?w2)
             = (case scan_error ?w2 rest of Some e \<Rightarrow> Inl e
                | None \<Rightarrow> Inr ((to_load @ [?r]) @ refs))"
        by blast
      have se: "scan_error ?w2 rest = scan_error w rest"
        using f2 by (rule scan_error_frame)
      have fc: "first_corrupt ?w2 = first_corrupt w"
        using f2 by (auto simp: first_corrupt_frame)
      have step: "scan_loop (f # rest) to_load w = scan_loop rest (to_load @ [?r]) ?w2"
        using True r by (simp add: is_crash_def scan_loop.simps)
      from scanned_Cons [OF f2 o2 r2 s]
      have "scanned (f # filter is_crash (takeWhile (\<lambda>g. \<not> first_corrupt w g) rest)) w
              (snd (scan_loop (f # rest) to_load w)) (?r # refs)"
        by (simp add: fc step)
      with res True nc show ?thesis
        by (intro exI [of _ "?r # refs"])
           (simp add: fc step se scan_error_Cons split: option.splits)
    qed
  qed
qed

subsection \<open>Listing and sorting\<close>


lemma listdir_listed: "f \<in> set (listdir (crash_directory (ctrl w)) w) \<Longrightarrow> listed w f"
  by (auto simp: listdir_def listed_def)

lemma distinct_listdir [simp]: "distinct (listdir d w)"
  by (simp add: listdir_def)

lemma set_sorted_reverse [simp]: "set (sorted_reverse xs) = set xs"
  by (simp add: sorted_reverse_def)

lemma distinct_sorted_reverse [simp]: "distinct (sorted_reverse xs) = distinct xs"
  by (simp add: sorted_reverse_def)

lemma splitext_append: "splitext p = (b, e) \<Longrightarrow> b @ e = p"
  by (auto simp: splitext_def Let_def split: if_splits)

lemma is_crash_stem: "is_crash f \<Longrightarrow> fst (splitext f) @ ''.crash'' = f"
  using splitext_append [of f "fst (splitext f)" "snd (splitext f)"]
  by (cases "splitext f") (simp add: is_crash_def)

text \<open>Two names in descending order.\<close>

lemma sorted_reverse_two:
  assumes "set xs = {a, b}" and "distinct xs" and "a < b"
  shows "sorted_reverse xs = [b, a]"
proof -
  have "sort xs = [a, b]"
  proof (rule sorted_distinct_set_unique)
    show "sorted (sort xs)" by simp
    show "distinct (sort xs)" using assms(2) by simp
    show "sorted [a, b]" using assms(3) by simp
    show "distinct [a, b]" using assms(3) by simp
    show "set (sort xs) = set [a, b]" using assms(1) by auto
  qed
  then show ?thesis by (simp add: sorted_reverse_def)
qed

lemma filter_sorted_reverse: "filter P (sorted_reverse xs) = sorted_reverse (filter P xs)"
  by (simp add: sorted_reverse_def rev_filter [symmetric] filter_sort)

section \<open>The background runner\<close>


subsection \<open>Delivering a load\<close>

lemma artifact_only_bg_load:
  "artifact_only (emit (LogDebug (''loading report '' @ base (objs w ! r))) w)
     (snd (bg_load env r w))"
  by (auto simp: bg_load_def Let_def artifact_only_run_proc split: option.splits)

lemma filter_remove_nth:
  assumes "i < length xs"
  shows "length (filter P (take i xs @ drop (Suc i) xs))
           = length (filter P xs) - (if P (xs ! i) then 1 else 0)"
proof -
  have "xs = take i xs @ xs ! i # drop (Suc i) xs"
    using assms by (rule id_take_nth_drop)
  then have "length (filter P xs)
      = length (filter P (take i xs @ xs ! i # drop (Suc i) xs))" by simp
  then show ?thesis by simp
qed

lemma complete_load_task:
  fixes env i w r rest f
  defines "w' \<equiv> snd (complete_task env i w)"
  assumes i: "i < length (pending w)" and t: "pending w ! i = LoadTask r (ReportLoaded rest)"
    and r: "r < length (objs w)" and f: "fileobj (objs w ! r) = Some f"
  shows "fst (complete_task env i w) = Inr ()"
    and "state (objs w' ! r) = DONE \<or> state (objs w' ! r) = ERROR_LOADING"
    and "fileobj (objs w' ! r) = None"
    and "pending w' = take i (pending w) @ drop (Suc i) (pending w)
           @ (case rest of [] \<Rightarrow> [] | a # rest' \<Rightarrow> [LoadTask a (ReportLoaded rest')])"
    and "changed_signals r (trace w') = Suc (changed_signals r (trace w))"
    and "j \<noteq> r \<Longrightarrow> state (objs w' ! j) = state (objs w ! j)"
    and "reports (ctrl w') = reports (ctrl w)"
proof -
  let ?w0 = "w\<lparr>pending := take i (pending w) @ drop (Suc i) (pending w)\<rparr>"
  let ?e = "emit (LogDebug (''loading report '' @ base (objs ?w0 ! r))) ?w0"
  obtain fut w1 where b: "bg_load env r ?w0 = (fut, w1)"
    by (cases "bg_load env r ?w0")
  have "artifact_only ?e (snd (bg_load env r ?w0))"
    by (rule artifact_only_bg_load)
  with b have a: "artifact_only ?e w1" by simp
  have c: "complete_task env i w = loaded r (ReportLoaded rest) fut w1"
    using i t b by (simp add: complete_task_def)
  from a r f have w1: "fileobj (objs w1 ! r) = Some f" "r < length (objs w1)"
    "fobjs w1 = fobjs w" "trace w1 = trace w @ [LogDebug (''loading report '' @ base (objs w ! r))]"
    "pending w1 = take i (pending w) @ drop (Suc i) (pending w)"
    "ctrl w1 = ctrl w" "\<And>j. state (objs w1 ! j) = state (objs w ! j)"
    by (simp_all add: artifact_only_def emit_def)
  note defs = loaded_def close_and_notify_def Let_def emit_def upd_report_def close_def
    call_def report_loaded_def load_def run_in_bg_def changed_signals_def
  show "fst (complete_task env i w) = Inr ()"
    using w1 by (cases fut; cases rest) (simp_all add: c defs)
  show "state (objs w' ! r) = DONE \<or> state (objs w' ! r) = ERROR_LOADING"
    using w1 by (cases fut; cases rest) (simp_all add: w'_def c defs)
  show "fileobj (objs w' ! r) = None"
    using w1 by (cases fut; cases rest) (simp_all add: w'_def c defs)
  show "pending w' = take i (pending w) @ drop (Suc i) (pending w)
           @ (case rest of [] \<Rightarrow> [] | a # rest' \<Rightarrow> [LoadTask a (ReportLoaded rest')])"
    using w1 by (cases fut; cases rest) (simp_all add: w'_def c defs)
  show "changed_signals r (trace w') = Suc (changed_signals r (trace w))"
    using w1 by (cases fut; cases rest) (simp_all add: w'_def c defs)
  show "state (objs w' ! j) = state (objs w ! j)" if "j \<noteq> r"
    using w1 that by (cases fut; cases rest) (simp_all add: w'_def c defs)
  show "reports (ctrl w') = reports (ctrl w)"
    using w1 by (cases fut; cases rest) (simp_all add: w'_def c defs)
qed

subsection \<open>Loads in flight\<close>

lemma pending_close_and_notify: "pending (snd (close_and_notify r w)) = pending w"
  by (simp add: close_and_notify_def emit_def upd_report_def close_def split: option.splits)

lemma pending_added_info: "pending (snd (added_info r fut w)) = pending w"
  by (cases fut) (simp_all add: added_info_def Let_def pending_close_and_notify emit_def
      upd_report_def)

lemma loads_loaded:
  "loads_in_flight (snd (loaded r cb fut w)) \<le> Suc (loads_in_flight w)"
proof -
  obtain rest where cb: "cb = ReportLoaded rest" by (cases cb)
  show ?thesis
    by (cases fut; cases rest)
       (auto simp: loaded_def Let_def close_and_notify_def and_then_def call_def cb
         report_loaded_def load_def run_in_bg_def emit_def upd_report_def close_def
         loads_in_flight_def split: option.splits)
qed

lemma loads_complete_task:
  "loads_in_flight (snd (complete_task env i w)) \<le> loads_in_flight w"
proof (cases "i < length (pending w)")
  case False
  then show ?thesis by (simp add: complete_task_def)
next
  case True
  let ?w0 = "w\<lparr>pending := take i (pending w) @ drop (Suc i) (pending w)\<rparr>"
  have l0: "loads_in_flight ?w0
      = loads_in_flight w - (if is_load (pending w ! i) then 1 else 0)"
    using filter_remove_nth [OF True, of is_load] by (simp add: loads_in_flight_def)
  show ?thesis
  proof (cases "pending w ! i")
    case (AddInfoTask r hook)
    obtain fut w1 where b: "bg_add_info env hook r ?w0 = (fut, w1)"
      by (cases "bg_add_info env hook r ?w0")
    have "artifact_only ?w0 (snd (bg_add_info env hook r ?w0))"
      by (rule artifact_only_bg_add_info)
    with b have "pending w1 = pending ?w0" by (simp add: artifact_only_def)
    with True AddInfoTask b l0 show ?thesis
      by (simp add: complete_task_def pending_added_info loads_in_flight_def)
  next
    case (LoadTask r cb)
    obtain fut w1 where b: "bg_load env r ?w0 = (fut, w1)"
      by (cases "bg_load env r ?w0")
    have "artifact_only (emit (LogDebug (''loading report '' @ base (objs ?w0 ! r))) ?w0)
            (snd (bg_load env r ?w0))"
      by (rule artifact_only_bg_load)
    with b have p1: "loads_in_flight w1 = loads_in_flight ?w0"
      by (simp add: artifact_only_def emit_def loads_in_flight_def)
    have pos: "0 < loads_in_flight w"
      using True LoadTask unfolding loads_in_flight_def
      by (metis filter_empty_conv is_load.simps(1) length_greater_0_conv nth_mem)
    have "loads_in_flight (snd (loaded r cb fut w1)) \<le> Suc (loads_in_flight w1)"
      by (rule loads_loaded)
    with True LoadTask b l0 p1 pos show ?thesis
      by (simp add: complete_task_def)
  qed
qed

lemma loads_bg_step: "bg_step env w w' \<Longrightarrow> loads_in_flight w' \<le> loads_in_flight w"
  by (auto elim!: bg_step.cases simp: loads_complete_task)

lemma loads_bg_run: "bg_run env w w' \<Longrightarrow> loads_in_flight w' \<le> loads_in_flight w"
proof (induction rule: bg_run.induct)
  case (bg_run_refl w)
  show ?case by simp
next
  case (bg_run_step w w1 w2)
  from bg_run_step.hyps(2) have "loads_in_flight w2 \<le> loads_in_flight w1"
    by (rule loads_bg_step)
  with bg_run_step.IH show ?case by simp
qed

subsection \<open>What \<^verbatim>\<open>scan_crash_dir\<close> does\<close>

lemma report_loaded_frame:
  "objs (snd (report_loaded to_load w)) = objs w"
  "ctrl (snd (report_loaded to_load w)) = ctrl w"
  "files (snd (report_loaded to_load w)) = files w"
  "trace (snd (report_loaded to_load w)) = trace w"
  "fobjs (snd (report_loaded to_load w)) = fobjs w"
  "fst (report_loaded to_load w) = Inr ()"
  "pending (snd (report_loaded to_load w))
     = pending w @ (case to_load of [] \<Rightarrow> [] | r # rest \<Rightarrow> [LoadTask r (ReportLoaded rest)])"
  by (cases to_load; simp add: report_loaded_def load_def run_in_bg_def)+

lemma scan_crash_dir_spec:
  fixes w
  defines "names \<equiv> sorted_reverse (listdir (crash_directory (ctrl w)) w)"
  defines "w' \<equiv> snd (scan_crash_dir w)"
  shows "\<exists>refs. reports (ctrl w') = reports (ctrl w) @ refs
           \<and> length refs = length (filter is_crash (takeWhile (\<lambda>f. \<not> first_corrupt w f) names))
           \<and> distinct refs
           \<and> (\<forall>i < length refs.
                 length (objs w) \<le> refs ! i \<and> refs ! i < length (objs w')
                 \<and> base (objs w' ! (refs ! i))
                     = fst (splitext (filter is_crash (takeWhile (\<lambda>f. \<not> first_corrupt w f) names) ! i))
                 \<and> state (objs w' ! (refs ! i)) = LOADING
                 \<and> (\<exists>fo. fileobj (objs w' ! (refs ! i)) = Some fo))
           \<and> files w' = files w \<and> trace w' = trace w
           \<and> (\<forall>i < length (objs w). objs w' ! i = objs w ! i)
           \<and> length (objs w) \<le> length (objs w')
           \<and> (if \<exists>f\<in>set names. first_corrupt w f
               then (\<exists>e. scan_error w names = Some e \<and> fst (scan_crash_dir w) = Inl e)
                  \<and> pending w' = pending w
               else fst (scan_crash_dir w) = Inr ()
                  \<and> pending w' = pending w
                       @ (case refs of [] \<Rightarrow> [] | r # rest \<Rightarrow> [LoadTask r (ReportLoaded rest)]))"
proof -
  let ?cs = "filter is_crash (takeWhile (\<lambda>f. \<not> first_corrupt w f) names)"
  have "\<forall>f\<in>set names. listed w f"
    by (simp add: names_def listdir_listed)
  from scan_loop_spec [OF this, of "[]"]
  obtain refs where s: "scanned ?cs w (snd (scan_loop names [] w)) refs"
    and res: "fst (scan_loop names [] w)
             = (case scan_error w names of Some e \<Rightarrow> Inl e | None \<Rightarrow> Inr ([] @ refs))"
    by blast
  obtain res1 w1 where l: "scan_loop names [] w = (res1, w1)"
    by (cases "scan_loop names [] w")
  from s l have s1: "scanned ?cs w w1 refs" by simp
  then have fr: "scan_frame w w1" by (simp add: scanned_def)
  have sc: "scan_crash_dir w = and_then (res1, w1) (\<lambda>to_load w1. report_loaded to_load w1)"
    by (simp add: scan_crash_dir_def l [unfolded names_def] Let_def)
  have keep: "\<forall>i < length (objs w). objs w1 ! i = objs w ! i"
    using fr by (simp add: scan_frame_nth)
  show ?thesis
  proof (cases "\<exists>f\<in>set names. first_corrupt w f")
    case True
    then obtain e where e: "scan_error w names = Some e"
      using scan_error_None [of w names] by auto
    with res l have "res1 = Inl e" by simp
    with sc have "scan_crash_dir w = (Inl e, w1)" by simp
    with s1 True keep e show ?thesis
      unfolding w'_def scanned_def scan_frame_def
      by (intro exI [of _ refs]) simp
  next
    case False
    then have "scan_error w names = None"
      by (simp add: scan_error_None)
    with res l have "res1 = Inr refs" by simp
    with sc have "scan_crash_dir w = report_loaded refs w1" by simp
    with s1 False keep show ?thesis
      unfolding w'_def scanned_def scan_frame_def
      by (intro exI [of _ refs]) (simp add: report_loaded_frame)
  qed
qed

lemma takeWhile_above:
  assumes "sorted (rev names)" and "distinct names" and "f \<in> set names" and "\<not> P f"
  shows "\<forall>g\<in>set (takeWhile P names). f < g"
  using assms
proof (induction names)
  case Nil
  then show ?case by simp
next
  case (Cons x xs)
  show ?case
  proof (cases "P x")
    case False
    then show ?thesis by simp
  next
    case True
    with Cons.prems have fx: "f \<in> set xs" and nx: "x \<notin> set xs" by auto
    from Cons.prems(1) have sx: "sorted (rev xs)" and le: "\<forall>y\<in>set xs. y \<le> x"
      by (simp_all add: sorted_append)
    from fx nx le have "f < x" by (metis order_le_imp_less_or_eq)
    moreover from Cons.IH [OF sx] Cons.prems(2) fx Cons.prems(4)
    have "\<forall>g\<in>set (takeWhile P xs). f < g" by simp
    ultimately show ?thesis using True by simp
  qed
qed

lemma sorted_rev_sorted_reverse [simp]: "sorted (rev (sorted_reverse xs))"
  by (simp add: sorted_reverse_def)


subsection \<open>The scan on the example stores\<close>

lemmas path_eval = basename_def splitext_def rfind_def splitext_scan.simps sorted_reverse_def
  is_crash_def


lemma corrupt_listdir:
  "listdir ''/var/crash'' corrupt_meta_store
     = [''1.ui.crash'', ''2.ui.crash'', ''2.ui.meta'', ''3.ui.crash'']"
  by (simp add: corrupt_meta_store_def empty_store_def world_eval pure_eval path_eval)

lemma corrupt_sorted:
  "sorted_reverse [''1.ui.crash'', ''2.ui.crash'', ''2.ui.meta'', ''3.ui.crash'']
     = [''3.ui.crash'', ''2.ui.meta'', ''2.ui.crash'', ''1.ui.crash'']"
  by (simp add: sorted_reverse_def)

lemma scan_corrupt_eval:
  "scan_crash_dir corrupt_meta_store =
    (Inl JSONDecodeError,
     corrupt_meta_store
       \<lparr>fobjs := [\<lparr>fname = ''/var/crash/3.ui.crash'', writing = False, closed = False\<rparr>,
                  \<lparr>fname = ''/var/crash/2.ui.crash'', writing = False, closed = False\<rparr>,
                  \<lparr>fname = ''/var/crash/2.ui.meta'', writing = False, closed = True\<rparr>],
        objs := [loading_report ''3.ui'' 0 (JObj []), loading_report ''2.ui'' 1 (JObj [])],
        ctrl := (ctrl corrupt_meta_store)\<lparr>reports := [0]\<rparr>\<rparr>)"
  by (simp add: corrupt_meta_store_def empty_store_def world_eval pure_eval path_eval
      loading_report_def listdir_def
      cong: and_then_weak_cong)

lemma two_listdir:
  "listdir (crash_directory (ctrl two_report_store)) two_report_store
     = [''1573000000.000000001.ui.crash'', ''1573000001.000000001.ui.crash'',
        ''1573000001.000000001.ui.meta'']"
  by (simp add: two_report_store_def empty_store_def world_eval pure_eval path_eval)

lemma scan_two_eval:
  "scan_crash_dir two_report_store =
    (Inr (),
     two_report_store
       \<lparr>fobjs := [\<lparr>fname = ''/var/crash/1573000001.000000001.ui.crash'', writing = False,
                    closed = False\<rparr>,
                  \<lparr>fname = ''/var/crash/1573000001.000000001.ui.meta'', writing = False,
                    closed = True\<rparr>,
                  \<lparr>fname = ''/var/crash/1573000000.000000001.ui.crash'', writing = False,
                    closed = False\<rparr>],
        objs := [loading_report ''1573000001.000000001.ui'' 0 (JObj [(''kind'', JStr ''UI'')]),
                 loading_report ''1573000000.000000001.ui'' 2 (JObj [])],
        ctrl := (ctrl two_report_store)\<lparr>reports := [0, 1]\<rparr>,
        pending := [LoadTask 0 (ReportLoaded [1])]\<rparr>)"
  by (simp add: two_report_store_def empty_store_def world_eval pure_eval path_eval
      loading_report_def listdir_def
      cong: and_then_weak_cong)


subsection \<open>Corrupt metadata\<close>

lemma find_SomeD: "find P xs = Some g \<Longrightarrow> g \<in> set xs \<and> P g"
  by (auto simp: find_Some_iff)

lemma find_greatest:
  assumes "sorted (rev names)" and "find P names = Some g" and "f \<in> set names" and "P f"
  shows "f \<le> g"
  using assms
proof (induction names)
  case Nil
  then show ?case by simp
next
  case (Cons x xs)
  from Cons.prems(1) have sx: "sorted (rev xs)" and le: "\<forall>y\<in>set xs. y \<le> x"
    by (simp_all add: sorted_append)
  show ?case
  proof (cases "P x")
    case True
    with Cons.prems(2) have "g = x" by simp
    with Cons.prems(3) le show ?thesis by auto
  next
    case False
    with Cons.prems(2) have "find P xs = Some g" by simp
    moreover from False Cons.prems(3,4) have "f \<in> set xs" by auto
    ultimately show ?thesis using Cons.IH [OF sx] Cons.prems(4) by simp
  qed
qed

lemma meta_error_cases:
  "meta_error w g = Some e \<Longrightarrow> e = JSONDecodeError \<or> e = UnicodeDecodeError"
  by (auto simp: meta_error_def json_load_def split: option.splits fdata.splits)

text \<open>
  C4, as amended.  When the metadata file of some artifact \<open>f\<close> of the directory exists
  and \<^verbatim>\<open>json.load\<close> fails on it, nothing is skipped and nothing is logged:
  \<^verbatim>\<open>scan_crash_dir\<close> raises what \<^verbatim>\<open>from_file\<close> raises, which is \<^verbatim>\<open>JSONDecodeError\<close> for text
  that is not valid JSON and \<^verbatim>\<open>UnicodeDecodeError\<close> for bytes that are not text.  The
  scan stops at the first such artifact \<open>g\<close> in descending order of the file names,
  which is \<open>f\<close> or one with a greater name.  The reports appended by then belong to
  artifacts whose file names are greater than that of \<open>g\<close>, so neither \<open>g\<close> nor any
  artifact after it has a report, and no load has been started.
\<close>

theorem scan_crash_dir_corrupt_meta:
  assumes "f \<in> set (listdir (crash_directory (ctrl w)) w)"
    and "snd (splitext f) = ''.crash''"
    and "corrupt_meta w f"
  shows "\<exists>g e. g \<in> set (listdir (crash_directory (ctrl w)) w)
           \<and> snd (splitext g) = ''.crash'' \<and> f \<le> g
           \<and> meta_error w g = Some e
           \<and> (e = JSONDecodeError \<or> e = UnicodeDecodeError)
           \<and> fst (scan_crash_dir w) = Inl e
           \<and> pending (snd (scan_crash_dir w)) = pending w
           \<and> trace (snd (scan_crash_dir w)) = trace w
           \<and> (\<exists>refs. reports (ctrl (snd (scan_crash_dir w))) = reports (ctrl w) @ refs
                 \<and> (\<forall>r\<in>set refs. \<exists>h\<in>set (listdir (crash_directory (ctrl w)) w).
                        g < h \<and> snd (splitext h) = ''.crash''
                        \<and> base (objs (snd (scan_crash_dir w)) ! r) = fst (splitext h)))"
proof -
  let ?names = "sorted_reverse (listdir (crash_directory (ctrl w)) w)"
  let ?cs = "filter is_crash (takeWhile (\<lambda>f. \<not> first_corrupt w f) ?names)"
  let ?w' = "snd (scan_crash_dir w)"
  from assms have fc: "first_corrupt w f" and fin: "f \<in> set ?names"
    by (simp_all add: first_corrupt_def is_crash_def)
  then have ex: "\<exists>f\<in>set ?names. first_corrupt w f" by blast
  from scan_crash_dir_spec [of w] ex
  obtain refs e where rep: "reports (ctrl ?w') = reports (ctrl w) @ refs"
    and len: "length refs = length ?cs"
    and each: "\<And>i. i < length refs \<Longrightarrow> base (objs ?w' ! (refs ! i)) = fst (splitext (?cs ! i))"
    and se: "scan_error w ?names = Some e"
    and res: "fst (scan_crash_dir w) = Inl e" "pending ?w' = pending w" "trace ?w' = trace w"
    by auto
  from se obtain g where fg: "find (first_corrupt w) ?names = Some g"
    and me: "meta_error w g = Some e"
    by (auto simp: scan_error_def split: option.splits)
  have gin: "g \<in> set ?names" and gc: "first_corrupt w g"
    using find_SomeD [OF fg] by simp_all
  have fg_le: "f \<le> g"
    by (rule find_greatest [OF _ fg fin fc]) simp
  have above: "\<forall>h\<in>set (takeWhile (\<lambda>f. \<not> first_corrupt w f) ?names). g < h"
    by (rule takeWhile_above) (use gin gc in simp_all)
  have "\<exists>h\<in>set (listdir (crash_directory (ctrl w)) w).
          g < h \<and> snd (splitext h) = ''.crash'' \<and> base (objs ?w' ! r) = fst (splitext h)"
    if "r \<in> set refs" for r
  proof -
    from that obtain i where i: "i < length refs" and r: "refs ! i = r"
      by (auto simp: in_set_conv_nth)
    from i len have "?cs ! i \<in> set ?cs" by (metis nth_mem)
    then have c: "is_crash (?cs ! i)"
      and t: "?cs ! i \<in> set (takeWhile (\<lambda>f. \<not> first_corrupt w f) ?names)"
      by simp_all
    from t have "?cs ! i \<in> set ?names" by (rule set_takeWhileD [THEN conjunct1])
    with t above c each [OF i] r show ?thesis
      by (auto simp: is_crash_def)
  qed
  with rep have refs: "\<exists>refs. reports (ctrl ?w') = reports (ctrl w) @ refs
      \<and> (\<forall>r\<in>set refs. \<exists>h\<in>set (listdir (crash_directory (ctrl w)) w).
             g < h \<and> snd (splitext h) = ''.crash'' \<and> base (objs ?w' ! r) = fst (splitext h))"
    by blast
  from gin have g1: "g \<in> set (listdir (crash_directory (ctrl w)) w)" by simp
  from gc have g2: "snd (splitext g) = ''.crash''"
    by (simp add: first_corrupt_def is_crash_def)
  from g1 g2 fg_le me meta_error_cases [OF me] res refs show ?thesis
    by blast
qed

lemma undecodable_listdir:
  "listdir ''/var/crash'' undecodable_meta_store
     = [''1.ui.crash'', ''2.ui.crash'', ''2.ui.meta'', ''3.ui.crash'']"
  by (simp add: undecodable_meta_store_def empty_store_def world_eval pure_eval path_eval)

lemma scan_undecodable_eval:
  "scan_crash_dir undecodable_meta_store =
    (Inl UnicodeDecodeError,
     undecodable_meta_store
       \<lparr>fobjs := [\<lparr>fname = ''/var/crash/3.ui.crash'', writing = False, closed = False\<rparr>,
                  \<lparr>fname = ''/var/crash/2.ui.crash'', writing = False, closed = False\<rparr>,
                  \<lparr>fname = ''/var/crash/2.ui.meta'', writing = False, closed = True\<rparr>],
        objs := [loading_report ''3.ui'' 0 (JObj []), loading_report ''2.ui'' 1 (JObj [])],
        ctrl := (ctrl undecodable_meta_store)\<lparr>reports := [0]\<rparr>\<rparr>)"
  by (simp add: undecodable_meta_store_def empty_store_def world_eval pure_eval path_eval
      loading_report_def listdir_def
      cong: and_then_weak_cong)

theorem scan_crash_dir_corrupt_meta_witness:
  "''2.ui.crash'' \<in> set (listdir (crash_directory (ctrl corrupt_meta_store)) corrupt_meta_store)
   \<and> snd (splitext ''2.ui.crash'') = ''.crash''
   \<and> corrupt_meta corrupt_meta_store ''2.ui.crash''
   \<and> fst (scan_crash_dir corrupt_meta_store) = Inl JSONDecodeError
   \<and> ''2.ui.crash''
        \<in> set (listdir (crash_directory (ctrl undecodable_meta_store)) undecodable_meta_store)
   \<and> corrupt_meta undecodable_meta_store ''2.ui.crash''
   \<and> fst (scan_crash_dir undecodable_meta_store) = Inl UnicodeDecodeError
   \<and> (\<exists>g e. g \<in> set (listdir (crash_directory (ctrl corrupt_meta_store)) corrupt_meta_store)
        \<and> snd (splitext g) = ''.crash'' \<and> ''2.ui.crash'' \<le> g
        \<and> meta_error corrupt_meta_store g = Some e
        \<and> fst (scan_crash_dir corrupt_meta_store) = Inl e
        \<and> pending (snd (scan_crash_dir corrupt_meta_store)) = pending corrupt_meta_store
        \<and> trace (snd (scan_crash_dir corrupt_meta_store)) = trace corrupt_meta_store)
   \<and> (\<exists>g e. g \<in> set (listdir (crash_directory (ctrl undecodable_meta_store))
                         undecodable_meta_store)
        \<and> snd (splitext g) = ''.crash'' \<and> ''2.ui.crash'' \<le> g
        \<and> meta_error undecodable_meta_store g = Some e
        \<and> fst (scan_crash_dir undecodable_meta_store) = Inl e
        \<and> pending (snd (scan_crash_dir undecodable_meta_store)) = pending undecodable_meta_store
        \<and> trace (snd (scan_crash_dir undecodable_meta_store)) = trace undecodable_meta_store)"
proof -
  have h1: "''2.ui.crash'' \<in> set (listdir (crash_directory (ctrl corrupt_meta_store)) corrupt_meta_store)"
    by (simp add: corrupt_meta_store_def empty_store_def world_eval pure_eval path_eval)
  have h2: "snd (splitext ''2.ui.crash'') = ''.crash''"
    by (simp add: path_eval)
  have h3: "corrupt_meta corrupt_meta_store ''2.ui.crash''"
    by (simp add: corrupt_meta_def meta_error_def json_load_def corrupt_meta_store_def
        empty_store_def pure_eval path_eval)
  have k1: "''2.ui.crash''
        \<in> set (listdir (crash_directory (ctrl undecodable_meta_store)) undecodable_meta_store)"
    by (simp add: undecodable_meta_store_def empty_store_def world_eval pure_eval path_eval)
  have k3: "corrupt_meta undecodable_meta_store ''2.ui.crash''"
    by (simp add: corrupt_meta_def meta_error_def json_load_def undecodable_meta_store_def
        empty_store_def pure_eval path_eval)
  have e1: "fst (scan_crash_dir corrupt_meta_store) = Inl JSONDecodeError"
    by (simp add: scan_corrupt_eval)
  have e2: "fst (scan_crash_dir undecodable_meta_store) = Inl UnicodeDecodeError"
    by (simp add: scan_undecodable_eval)
  from scan_crash_dir_corrupt_meta [OF h1 h2 h3] scan_crash_dir_corrupt_meta [OF k1 h2 k3]
    h1 h2 h3 k1 k3 e1 e2 show ?thesis
    by blast
qed


text \<open>
  C4, as stated, fails on a directory with three artifacts of which the middle one has
  metadata that is not JSON: the scan raises, the only report is that of the newest
  artifact, whose load is never started, nothing is logged, and the oldest artifact,
  whose metadata is fine, has no report.
\<close>

theorem scan_crash_dir_corrupt_meta_counterexample:
  "fst (scan_crash_dir corrupt_meta_store) = Inl JSONDecodeError
   \<and> map (\<lambda>r. base (objs (snd (scan_crash_dir corrupt_meta_store)) ! r))
         (reports (ctrl (snd (scan_crash_dir corrupt_meta_store)))) = [''3.ui'']
   \<and> pending (snd (scan_crash_dir corrupt_meta_store)) = []
   \<and> trace (snd (scan_crash_dir corrupt_meta_store)) = []
   \<and> ''1.ui.crash'' \<in> set (listdir (crash_directory (ctrl corrupt_meta_store)) corrupt_meta_store)
   \<and> \<not> corrupt_meta corrupt_meta_store ''1.ui.crash''"
proof -
  have "''1.ui.crash'' \<in> set (listdir (crash_directory (ctrl corrupt_meta_store)) corrupt_meta_store)"
    by (simp add: corrupt_meta_store_def empty_store_def world_eval pure_eval path_eval)
  moreover have "\<not> corrupt_meta corrupt_meta_store ''1.ui.crash''"
    by (simp add: corrupt_meta_def meta_error_def corrupt_meta_store_def empty_store_def
        pure_eval path_eval)
  moreover have "pending corrupt_meta_store = []" "trace corrupt_meta_store = []"
    by (simp_all add: corrupt_meta_store_def empty_store_def)
  ultimately show ?thesis
    by (simp add: scan_corrupt_eval loading_report_def)
qed


subsection \<open>Which entries yield a report\<close>

text \<open>
  C10.  The reports that \<^verbatim>\<open>scan_crash_dir\<close> adds to the controller's sequence correspond
  one to one to entries of the store directory whose extension is \<^verbatim>\<open>.crash\<close>: each new
  report's base followed by \<^verbatim>\<open>.crash\<close> is such an entry, and no two new reports come from
  the same entry.  So no other file of the directory, a \<^verbatim>\<open>.meta\<close> file included, yields a
  report.
\<close>

theorem scan_crash_dir_only_crash_files:
  "\<exists>refs. reports (ctrl (snd (scan_crash_dir w))) = reports (ctrl w) @ refs
        \<and> distinct (map (\<lambda>r. base (objs (snd (scan_crash_dir w)) ! r) @ ''.crash'') refs)
        \<and> (\<forall>r\<in>set refs.
              base (objs (snd (scan_crash_dir w)) ! r) @ ''.crash''
                \<in> set (listdir (crash_directory (ctrl w)) w)
              \<and> snd (splitext (base (objs (snd (scan_crash_dir w)) ! r) @ ''.crash'')) = ''.crash'')"
proof -
  let ?names = "sorted_reverse (listdir (crash_directory (ctrl w)) w)"
  let ?cs = "filter is_crash (takeWhile (\<lambda>f. \<not> first_corrupt w f) ?names)"
  let ?w' = "snd (scan_crash_dir w)"
  let ?name = "\<lambda>r. base (objs ?w' ! r) @ ''.crash''"
  from scan_crash_dir_spec [of w]
  obtain refs where rep: "reports (ctrl ?w') = reports (ctrl w) @ refs"
    and len: "length refs = length ?cs"
    and each: "\<And>i. i < length refs \<Longrightarrow> base (objs ?w' ! (refs ! i)) = fst (splitext (?cs ! i))"
    by auto
  have cs: "\<And>c. c \<in> set ?cs \<Longrightarrow> is_crash c \<and> c \<in> set (listdir (crash_directory (ctrl w)) w)"
    by (auto dest: set_takeWhileD)
  have nth: "?name (refs ! i) = ?cs ! i" if "i < length refs" for i
  proof -
    from that len have "?cs ! i \<in> set ?cs" by (metis nth_mem)
    with cs have "is_crash (?cs ! i)" by blast
    then show ?thesis by (simp add: each [OF that] is_crash_stem)
  qed
  have m: "map ?name refs = ?cs"
    by (rule nth_equalityI) (simp_all add: len nth)
  have "distinct ?cs"
    by (simp add: distinct_takeWhile)
  with m have d: "distinct (map ?name refs)" by simp
  have "?name r \<in> set (listdir (crash_directory (ctrl w)) w)
        \<and> snd (splitext (?name r)) = ''.crash''" if "r \<in> set refs" for r
  proof -
    from that have "?name r \<in> set (map ?name refs)" by simp
    with m have "?name r \<in> set ?cs" by simp
    with cs show ?thesis by (auto simp: is_crash_def)
  qed
  with rep d show ?thesis by blast
qed

theorem scan_crash_dir_only_crash_files_witness:
  "reports (ctrl (snd (scan_crash_dir two_report_store))) = [0, 1]
   \<and> length (listdir (crash_directory (ctrl two_report_store)) two_report_store) = 3
   \<and> (\<exists>refs. reports (ctrl (snd (scan_crash_dir two_report_store)))
                = reports (ctrl two_report_store) @ refs
        \<and> distinct (map (\<lambda>r. base (objs (snd (scan_crash_dir two_report_store)) ! r) @ ''.crash'')
                      refs)
        \<and> (\<forall>r\<in>set refs.
              base (objs (snd (scan_crash_dir two_report_store)) ! r) @ ''.crash''
                \<in> set (listdir (crash_directory (ctrl two_report_store)) two_report_store)
              \<and> snd (splitext (base (objs (snd (scan_crash_dir two_report_store)) ! r) @ ''.crash''))
                  = ''.crash''))"
proof -
  have "reports (ctrl (snd (scan_crash_dir two_report_store))) = [0, 1]"
    by (simp add: scan_two_eval)
  moreover have "length (listdir (crash_directory (ctrl two_report_store)) two_report_store) = 3"
    by (simp add: two_listdir)
  ultimately show ?thesis
    using scan_crash_dir_only_crash_files [of two_report_store] by blast
qed

subsection \<open>Order of the reports and of their loads\<close>

text \<open>
  C5.  Let the \<^verbatim>\<open>.crash\<close> entries of the store directory be \<open>A\<close> and \<open>B\<close>, with \<open>A\<close> the
  older one (\<open>A < B\<close> as file names), and let no load be in flight.  When
  \<^verbatim>\<open>scan_crash_dir\<close> returns, it has appended the report of \<open>B\<close> and then the report of
  \<open>A\<close> to the report sequence, and the one task it has submitted is the load of \<open>B\<close>,
  with the load of \<open>A\<close> as its continuation.  Delivering that task runs the completion
  handler of \<open>B\<close> (its state becomes \<^verbatim>\<open>DONE\<close> or \<^verbatim>\<open>ERROR_LOADING\<close> and its \<^verbatim>\<open>"changed"\<close>
  signal is emitted), and only that submits the load of \<open>A\<close>, whose report is still
  \<^verbatim>\<open>LOADING\<close>.  In every state the runner can reach afterwards at most one load is in
  flight.
\<close>

theorem scan_crash_dir_two_artifacts:
  assumes "{f \<in> set (listdir (crash_directory (ctrl w)) w). snd (splitext f) = ''.crash''} = {A, B}"
    and "A < B"
    and "fst (scan_crash_dir w) = Inr ()"
    and "loads_in_flight w = 0"
  shows "\<exists>rB rA.
          reports (ctrl (snd (scan_crash_dir w))) = reports (ctrl w) @ [rB, rA]
        \<and> base (objs (snd (scan_crash_dir w)) ! rB) = fst (splitext B)
        \<and> base (objs (snd (scan_crash_dir w)) ! rA) = fst (splitext A)
        \<and> pending (snd (scan_crash_dir w)) = pending w @ [LoadTask rB (ReportLoaded [rA])]
        \<and> state (objs (snd (scan_crash_dir w)) ! rA) = LOADING
        \<and> fst (complete_task env (length (pending w)) (snd (scan_crash_dir w))) = Inr ()
        \<and> pending (snd (complete_task env (length (pending w)) (snd (scan_crash_dir w))))
             = pending w @ [LoadTask rA (ReportLoaded [])]
        \<and> (state (objs (snd (complete_task env (length (pending w)) (snd (scan_crash_dir w)))) ! rB)
              = DONE
           \<or> state (objs (snd (complete_task env (length (pending w)) (snd (scan_crash_dir w)))) ! rB)
              = ERROR_LOADING)
        \<and> changed_signals rB
             (trace (snd (complete_task env (length (pending w)) (snd (scan_crash_dir w)))))
             = Suc (changed_signals rB (trace (snd (scan_crash_dir w))))
        \<and> state (objs (snd (complete_task env (length (pending w)) (snd (scan_crash_dir w)))) ! rA)
             = LOADING
        \<and> (\<forall>w3. bg_run env (snd (scan_crash_dir w)) w3 \<longrightarrow> loads_in_flight w3 \<le> 1)"
proof -
  let ?l = "listdir (crash_directory (ctrl w)) w"
  let ?names = "sorted_reverse ?l"
  let ?w1 = "snd (scan_crash_dir w)"
  let ?i = "length (pending w)"
  let ?w2 = "snd (complete_task env ?i ?w1)"
  have none: "\<not> (\<exists>f\<in>set ?names. first_corrupt w f)"
  proof
    assume "\<exists>f\<in>set ?names. first_corrupt w f"
    with scan_crash_dir_spec [of w] obtain e where "fst (scan_crash_dir w) = Inl e"
      by auto
    with assms(3) show False by simp
  qed
  then have tw: "takeWhile (\<lambda>f. \<not> first_corrupt w f) ?names = ?names"
    by (simp add: takeWhile_eq_all_conv)
  have "set (filter is_crash ?l) = {A, B}"
    using assms(1) by (simp add: is_crash_def)
  then have "sorted_reverse (filter is_crash ?l) = [B, A]"
    by (rule sorted_reverse_two) (simp_all add: assms(2))
  then have cs: "filter is_crash (takeWhile (\<lambda>f. \<not> first_corrupt w f) ?names) = [B, A]"
    by (simp add: tw filter_sorted_reverse)
  from scan_crash_dir_spec [of w] none
  obtain refs where rep: "reports (ctrl ?w1) = reports (ctrl w) @ refs"
    and len: "length refs = 2" and d: "distinct refs"
    and each: "\<And>i. i < length refs \<Longrightarrow>
                 refs ! i < length (objs ?w1)
                 \<and> base (objs ?w1 ! (refs ! i)) = fst (splitext ([B, A] ! i))
                 \<and> state (objs ?w1 ! (refs ! i)) = LOADING
                 \<and> (\<exists>fo. fileobj (objs ?w1 ! (refs ! i)) = Some fo)"
    and pend: "pending ?w1 = pending w
                 @ (case refs of [] \<Rightarrow> [] | r # rest \<Rightarrow> [LoadTask r (ReportLoaded rest)])"
    unfolding cs by auto
  from len obtain rB rA where refs: "refs = [rB, rA]"
    by (cases refs; cases "tl refs") auto
  from d refs have ne: "rA \<noteq> rB" by auto
  from each [of 0] refs obtain fo where
    b: "rB < length (objs ?w1)" "base (objs ?w1 ! rB) = fst (splitext B)"
       "fileobj (objs ?w1 ! rB) = Some fo"
    by auto
  from each [of 1] refs have
    a: "base (objs ?w1 ! rA) = fst (splitext A)" "state (objs ?w1 ! rA) = LOADING"
    by auto
  from pend refs have p1: "pending ?w1 = pending w @ [LoadTask rB (ReportLoaded [rA])]"
    by simp
  then have i: "?i < length (pending ?w1)"
    and t: "pending ?w1 ! ?i = LoadTask rB (ReportLoaded [rA])"
    by simp_all
  note dl = complete_load_task [OF i t b(1) b(3), where env = env]
  have p2: "pending ?w2 = pending w @ [LoadTask rA (ReportLoaded [])]"
    using dl(4) p1 by simp
  have sa: "state (objs ?w2 ! rA) = LOADING"
    using dl(6) [OF ne] a(2) by simp
  have "loads_in_flight ?w1 = 1"
    using p1 assms(4) by (simp add: loads_in_flight_def)
  then have inv: "\<forall>w3. bg_run env ?w1 w3 \<longrightarrow> loads_in_flight w3 \<le> 1"
    by (metis loads_bg_run)
  from rep refs b(2) a p1 dl(1) p2 dl(2) dl(5) sa inv show ?thesis
    by blast
qed

theorem scan_crash_dir_two_artifacts_witness:
  "{f \<in> set (listdir (crash_directory (ctrl two_report_store)) two_report_store).
      snd (splitext f) = ''.crash''}
     = {''1573000000.000000001.ui.crash'', ''1573000001.000000001.ui.crash''}
   \<and> ''1573000000.000000001.ui.crash'' < ''1573000001.000000001.ui.crash''
   \<and> fst (scan_crash_dir two_report_store) = Inr ()
   \<and> loads_in_flight two_report_store = 0
   \<and> (\<exists>rB rA.
          reports (ctrl (snd (scan_crash_dir two_report_store))) = [rB, rA]
        \<and> base (objs (snd (scan_crash_dir two_report_store)) ! rB) = ''1573000001.000000001.ui''
        \<and> base (objs (snd (scan_crash_dir two_report_store)) ! rA) = ''1573000000.000000001.ui''
        \<and> pending (snd (scan_crash_dir two_report_store)) = [LoadTask rB (ReportLoaded [rA])]
        \<and> pending (snd (complete_task host_ok 0 (snd (scan_crash_dir two_report_store))))
             = [LoadTask rA (ReportLoaded [])]
        \<and> (\<forall>w3. bg_run host_ok (snd (scan_crash_dir two_report_store)) w3
               \<longrightarrow> loads_in_flight w3 \<le> 1))"
proof -
  let ?A = "''1573000000.000000001.ui.crash''" and ?B = "''1573000001.000000001.ui.crash''"
  have h1: "{f \<in> set (listdir (crash_directory (ctrl two_report_store)) two_report_store).
      snd (splitext f) = ''.crash''} = {?A, ?B}"
    unfolding two_listdir set_filter [symmetric] by (simp add: path_eval)
  have h2: "?A < ?B" by simp
  have h3: "fst (scan_crash_dir two_report_store) = Inr ()"
    by (simp add: scan_two_eval)
  have h4: "loads_in_flight two_report_store = 0"
    by (simp add: loads_in_flight_def two_report_store_def empty_store_def)
  have e: "reports (ctrl two_report_store) = []" "pending two_report_store = []"
    "fst (splitext ?A) = ''1573000000.000000001.ui''"
    "fst (splitext ?B) = ''1573000001.000000001.ui''"
    by (simp_all add: two_report_store_def empty_store_def ErrorController_init_def path_eval)
  from scan_crash_dir_two_artifacts [OF h1 h2 h3 h4, where env = host_ok]
  have "\<exists>rB rA.
          reports (ctrl (snd (scan_crash_dir two_report_store))) = [rB, rA]
        \<and> base (objs (snd (scan_crash_dir two_report_store)) ! rB) = ''1573000001.000000001.ui''
        \<and> base (objs (snd (scan_crash_dir two_report_store)) ! rA) = ''1573000000.000000001.ui''
        \<and> pending (snd (scan_crash_dir two_report_store)) = [LoadTask rB (ReportLoaded [rA])]
        \<and> pending (snd (complete_task host_ok 0 (snd (scan_crash_dir two_report_store))))
             = [LoadTask rA (ReportLoaded [])]
        \<and> (\<forall>w3. bg_run host_ok (snd (scan_crash_dir two_report_store)) w3
               \<longrightarrow> loads_in_flight w3 \<le> 1)"
    unfolding e by (elim exE conjE, intro exI conjI) (simp_all only: append_Nil list.size)
  with h1 h2 h3 h4 show ?thesis by blast
qed


section \<open>Persisting the metadata\<close>

lemma map_of_dict_set: "map_of (dict_set d k v) = (map_of d)(k \<mapsto> v)"
  by (induction d) auto

lemma dict_get_dict_set [simp]: "dict_get (dict_set d k v) k dflt = v"
  by (simp add: dict_get_def map_of_dict_set)

lemma dict_set_key: "k \<in> fst ` set (dict_set d k v)"
  by (induction d) force+

lemma set_meta_cases:
  assumes "r < length (objs w)"
  shows "set_meta r k v w =
     (case meta (objs w ! r) of
        JObj d \<Rightarrow>
          if writable w then
            (Inr (),
             w\<lparr>files := dict_set (dict_set (files w) (meta_path r w) (Blob []))
                           (meta_path r w) (JsonDoc (JObj (dict_set d k v))),
               fobjs := fobjs w @ [\<lparr>fname = meta_path r w, writing = True, closed = True\<rparr>],
               objs := (objs w)[r := (objs w ! r)\<lparr>meta := JObj (dict_set d k v)\<rparr>]\<rparr>)
          else (Inl PermissionError,
                w\<lparr>objs := (objs w)[r := (objs w ! r)\<lparr>meta := JObj (dict_set d k v)\<rparr>]\<rparr>)
      | _ \<Rightarrow> (Inl TypeError, w))"
  using assms
  by (cases "meta (objs w ! r)")
     (simp_all add: set_meta_def setitem_def open_w_def upd_report_def upd_at_def write_file_def
       close_def meta_path_def path_with_ext_def nth_append list_update_append)

lemma read_meta_written:
  assumes "files w = dict_set fs (meta_path r w) (JsonDoc j)"
  shows "read_meta r w = Inr j"
  using assms
  by (simp add: read_meta_def open_r_def read_file_def dict_set_key json_load_def nth_append)

lemma read_meta_same:
  assumes "files w' = files w" and "meta_path r w' = meta_path r w"
    and "length (fobjs w') = length (fobjs w)"
  shows "read_meta r w' = read_meta r w"
  using assms
  by (simp add: read_meta_def open_r_def read_file_def nth_append)

text \<open>
  C6, as amended.  The key \<open>k\<close> is a string, and \<open>v\<close> and the entries of the report's
  \<^verbatim>\<open>meta\<close> are values that \<^verbatim>\<open>json.load\<close> returns.  When \<^verbatim>\<open>set_meta(k, v)\<close> returns normally,
  reading the metadata file back yields the report's in-memory \<^verbatim>\<open>meta\<close>, and that
  mapping holds \<open>v\<close> under \<open>k\<close>.  When the metadata file cannot be opened for writing,
  \<^verbatim>\<open>set_meta\<close> raises \<^verbatim>\<open>PermissionError\<close>: the in-memory \<^verbatim>\<open>meta\<close> nevertheless holds \<open>v\<close>
  under \<open>k\<close>, the files are as they were and the metadata file reads as it did before
  the call.  So after such a call the metadata file does not read as the in-memory
  \<^verbatim>\<open>meta\<close> whenever it did before the call and the call changed the in-memory \<^verbatim>\<open>meta\<close>.
\<close>

theorem set_meta_roundtrip:
  assumes "r < length (objs w)"
  shows "(fst (set_meta r k v w) = Inr () \<longrightarrow>
            read_meta r (snd (set_meta r k v w)) = Inr (meta (objs (snd (set_meta r k v w)) ! r))
          \<and> meta_get (meta (objs (snd (set_meta r k v w)) ! r)) k dflt = Inr v)
       \<and> (fst (set_meta r k v w) = Inl PermissionError \<longrightarrow>
            files (snd (set_meta r k v w)) = files w
          \<and> read_meta r (snd (set_meta r k v w)) = read_meta r w
          \<and> meta_get (meta (objs (snd (set_meta r k v w)) ! r)) k dflt = Inr v
          \<and> (read_meta r w = Inr (meta (objs w ! r))
               \<and> meta (objs (snd (set_meta r k v w)) ! r) \<noteq> meta (objs w ! r)
             \<longrightarrow> read_meta r (snd (set_meta r k v w))
                   \<noteq> Inr (meta (objs (snd (set_meta r k v w)) ! r))))"
proof (cases "meta (objs w ! r)")
  case (JObj d)
  let ?w' = "snd (set_meta r k v w)"
  show ?thesis
  proof (cases "writable w")
    case True
    from True JObj assms have
      f: "files ?w' = dict_set (dict_set (files w) (meta_path r w) (Blob []))
                           (meta_path r w) (JsonDoc (JObj (dict_set d k v)))"
      and m: "meta (objs ?w' ! r) = JObj (dict_set d k v)"
      and p: "meta_path r ?w' = meta_path r w"
      and res: "fst (set_meta r k v w) = Inr ()"
      by (simp_all add: set_meta_cases meta_path_def path_with_ext_def)
    from f p have "read_meta r ?w' = Inr (JObj (dict_set d k v))"
      by (intro read_meta_written) simp
    with m res show ?thesis by (simp add: meta_get_def)
  next
    case False
    from False JObj assms have
      f: "files ?w' = files w"
      and m: "meta (objs ?w' ! r) = JObj (dict_set d k v)"
      and p: "meta_path r ?w' = meta_path r w"
      and l: "length (fobjs ?w') = length (fobjs w)"
      and res: "fst (set_meta r k v w) = Inl PermissionError"
      by (simp_all add: set_meta_cases meta_path_def path_with_ext_def)
    from f p l have same: "read_meta r ?w' = read_meta r w"
      by (rule read_meta_same)
    from m have g: "meta_get (meta (objs ?w' ! r)) k dflt = Inr v"
      by (simp add: meta_get_def)
    have "read_meta r ?w' \<noteq> Inr (meta (objs ?w' ! r))"
      if "read_meta r w = Inr (meta (objs w ! r))"
        and "meta (objs ?w' ! r) \<noteq> meta (objs w ! r)"
      using that same by simp
    with f same g res show ?thesis by auto
  qed
qed (simp_all add: set_meta_cases assms)

lemma readonly_report_store_eq:
  "readonly_report_store =
     \<lparr>files = [(''/var/crash/1573000000.000000001.'' @ lower ''UI'' @ ''.crash'', Blob []),
               (''/var/crash/1573000000.000000001.'' @ lower ''UI'' @ ''.meta'',
                JsonDoc (JObj [(''kind'', JStr ''UI'')]))],
      writable = False,
      fobjs = [\<lparr>fname = ''/var/crash/1573000000.000000001.'' @ lower ''UI'' @ ''.crash'',
                writing = True, closed = False\<rparr>,
               \<lparr>fname = ''/var/crash/1573000000.000000001.'' @ lower ''UI'' @ ''.meta'',
                writing = True, closed = True\<rparr>],
      objs = [\<lparr>base = ''1573000000.000000001.'' @ lower ''UI'',
               pr = [(''ProblemType'', ''Bug''), (''Date'', ''Wed Nov  6 10:00:00 2019''),
                     (''CrashDB'', repr_dict [(''impl'', ''launchpad''), (''project'', ''subiquity'')])],
               state = INCOMPLETE, fileobj = Some 0, meta = JObj [(''kind'', JStr ''UI'')]\<rparr>],
      ctrl = \<lparr>crash_directory = ''/var/crash'',
              crashdb_spec = [(''impl'', ''launchpad''), (''project'', ''subiquity'')],
              dry_run = False, reports = [0]\<rparr>,
      pending = [], trace = []\<rparr>"
  by (simp add: readonly_report_store_def fresh_report_store_eq)

lemmas read_meta_eval =
  read_meta_def [where w = "\<lparr>files = fs, writable = wr, fobjs = fo, objs = os, ctrl = c,
    pending = pe, trace = tr\<rparr>"] for fs wr fo os c pe tr


theorem set_meta_roundtrip_witness:
  "0 < length (objs fresh_report_store)
   \<and> fst (set_meta 0 ''seen'' (JBool True) fresh_report_store) = Inr ()
   \<and> read_meta 0 (snd (set_meta 0 ''seen'' (JBool True) fresh_report_store))
       = Inr (meta (objs (snd (set_meta 0 ''seen'' (JBool True) fresh_report_store)) ! 0))
   \<and> meta_get (meta (objs (snd (set_meta 0 ''seen'' (JBool True) fresh_report_store)) ! 0))
        ''seen'' (JBool False) = Inr (JBool True)
   \<and> 0 < length (objs readonly_report_store)
   \<and> fst (set_meta 0 ''seen'' (JBool True) readonly_report_store) = Inl PermissionError
   \<and> files (snd (set_meta 0 ''seen'' (JBool True) readonly_report_store))
       = files readonly_report_store
   \<and> read_meta 0 (snd (set_meta 0 ''seen'' (JBool True) readonly_report_store))
       = read_meta 0 readonly_report_store
   \<and> meta_get (meta (objs (snd (set_meta 0 ''seen'' (JBool True) readonly_report_store)) ! 0))
        ''seen'' (JBool False) = Inr (JBool True)
   \<and> read_meta 0 readonly_report_store = Inr (meta (objs readonly_report_store ! 0))
   \<and> meta (objs (snd (set_meta 0 ''seen'' (JBool True) readonly_report_store)) ! 0)
        \<noteq> meta (objs readonly_report_store ! 0)
   \<and> read_meta 0 (snd (set_meta 0 ''seen'' (JBool True) readonly_report_store))
        \<noteq> Inr (meta (objs (snd (set_meta 0 ''seen'' (JBool True) readonly_report_store)) ! 0))"
proof -
  have a: "0 < length (objs fresh_report_store)"
    by (simp add: fresh_report_store_eq)
  have b: "fst (set_meta 0 ''seen'' (JBool True) fresh_report_store) = Inr ()"
    by (simp add: fresh_report_store_eq world_eval pure_eval cong: and_then_weak_cong)
  have c: "0 < length (objs readonly_report_store)"
    by (simp add: readonly_report_store_eq)
  have d: "fst (set_meta 0 ''seen'' (JBool True) readonly_report_store) = Inl PermissionError"
    by (simp add: readonly_report_store_eq world_eval pure_eval cong: and_then_weak_cong)
  have e: "read_meta 0 readonly_report_store = Inr (meta (objs readonly_report_store ! 0))"
    by (simp add: readonly_report_store_eq read_meta_eval world_eval pure_eval)
  have f: "meta (objs (snd (set_meta 0 ''seen'' (JBool True) readonly_report_store)) ! 0)
        \<noteq> meta (objs readonly_report_store ! 0)"
    by (simp add: readonly_report_store_eq world_eval pure_eval cong: and_then_weak_cong)
  from set_meta_roundtrip [OF a, of "''seen''" "JBool True" "JBool False"]
    set_meta_roundtrip [OF c, of "''seen''" "JBool True" "JBool False"] a b c d e f
  show ?thesis by simp
qed

text \<open>
  C6, as stated, fails when the store cannot be written: \<^verbatim>\<open>set_meta("seen", True)\<close>
  raises, yet the in-memory \<^verbatim>\<open>meta\<close> has the new entry and the metadata file, read back,
  has not.
\<close>

theorem set_meta_readonly_counterexample:
  "fst (set_meta 0 ''seen'' (JBool True) readonly_report_store) = Inl PermissionError
   \<and> meta (objs (snd (set_meta 0 ''seen'' (JBool True) readonly_report_store)) ! 0)
       = JObj [(''kind'', JStr ''UI''), (''seen'', JBool True)]
   \<and> read_meta 0 (snd (set_meta 0 ''seen'' (JBool True) readonly_report_store))
       = Inr (JObj [(''kind'', JStr ''UI'')])"
  by (simp add: readonly_report_store_eq world_eval pure_eval read_meta_eval
      cong: and_then_weak_cong)


section \<open>Where a report lives on persistent storage\<close>

lemma find_mount_none:
  "\<forall>l\<in>set lines. 4 < length (split_ws l) \<and> normpath (split_ws l ! 4) \<noteq> looking_for
   \<Longrightarrow> find_mount looking_for lines = Inr None"
  by (induction lines) (simp_all add: Let_def)

text \<open>
  C8, as amended.  When the mount table can be read, each of its lines has at least five
  fields and no line's mount point is the store directory, \<^verbatim>\<open>persistent_details\<close> raises
  nothing: it returns \<^verbatim>\<open>(None, None)\<close> unless the controller runs in dry-run mode, and
  in dry-run mode the label \<^verbatim>\<open>casper-rw\<close> with a fixed path that ends in the report's
  file name.  A failure is not turned into \<^verbatim>\<open>(None, None)\<close>: when the mount table
  cannot be read, and when the store directory is a mount point and the device lookup
  fails, \<^verbatim>\<open>persistent_details\<close> raises that exception.
\<close>

theorem persistent_details_not_mounted:
  "(mountinfo env = Inr lines
      \<and> (\<forall>l\<in>set lines. 4 < length (split_ws l)
            \<and> normpath (split_ws l ! 4) \<noteq> abspath (cwd env) (normpath (crash_directory c)))
    \<longrightarrow> persistent_details env c rep =
           (if dry_run c
            then Inr (Some ''casper-rw'',
                      Some (''install-logs/2019-11-06.0/crash/'' @ base rep @ ''.crash''))
            else Inr (None, None)))
   \<and> (mountinfo env = Inl e \<longrightarrow> persistent_details env c rep = Inl e)
   \<and> (mountinfo env = Inr lines
        \<and> find_mount (abspath (cwd env) (normpath (crash_directory c))) lines
             = Inr (Some (devname, root))
        \<and> list_devices env (realpath env devname) = Inl e
      \<longrightarrow> persistent_details env c rep = Inl e)"
  by (simp add: persistent_details_def find_mount_none)

text \<open>What else \<^verbatim>\<open>persistent_details\<close> does.\<close>

lemma persistent_details_short_line:
  "mountinfo env = Inr (l # lines) \<Longrightarrow> length (split_ws l) \<le> 4
   \<Longrightarrow> persistent_details env c rep = Inl IndexError"
  by (simp add: persistent_details_def)

lemma persistent_details_no_device:
  assumes "mountinfo env = Inr lines"
    and "find_mount (abspath (cwd env) (normpath (crash_directory c))) lines
           = Inr (Some (devname, root))"
    and "list_devices env (realpath env devname) = Inr []"
  shows "persistent_details env c rep = Inr (None, None)"
  using assms by (simp add: persistent_details_def)

lemma persistent_details_device_error:
  assumes "mountinfo env = Inr lines"
    and "find_mount (abspath (cwd env) (normpath (crash_directory c))) lines
           = Inr (Some (devname, root))"
    and "list_devices env (realpath env devname) = Inl e"
  shows "persistent_details env c rep = Inl e"
  using assms by (simp add: persistent_details_def)

lemma host_root_mounted_simps:
  "mountinfo host_root_mounted
     = Inr [''22 1 8:1 / / rw,relatime shared:1 - ext4 /dev/sda1 rw,errors=remount-ro'']"
  "cwd host_root_mounted = ''/''"
  by (simp_all add: host_root_mounted_def host_ok_def)

lemma host_no_udev_simps:
  "mountinfo host_no_udev
     = Inr [''30 22 8:3 / /var/crash rw,relatime shared:5 - ext4 /dev/sda3 rw'']"
  "cwd host_no_udev = ''/''"
  "realpath host_no_udev d = d"
  "list_devices host_no_udev d = Inl (Failure ''pyudev'')"
  by (simp_all add: host_no_udev_def host_ok_def)

lemma split_ws_root_line:
  "split_ws ''22 1 8:1 / / rw,relatime shared:1 - ext4 /dev/sda1 rw,errors=remount-ro''
     = [''22'', ''1'', ''8:1'', ''/'', ''/'', ''rw,relatime'', ''shared:1'', ''-'', ''ext4'',
        ''/dev/sda1'', ''rw,errors=remount-ro'']"
  by (simp add: split_ws_def isspace_def)

lemma split_ws_crash_line:
  "split_ws ''30 22 8:3 / /var/crash rw,relatime shared:5 - ext4 /dev/sda3 rw''
     = [''30'', ''22'', ''8:3'', ''/'', ''/var/crash'', ''rw,relatime'', ''shared:5'', ''-'',
        ''ext4'', ''/dev/sda3'', ''rw'']"
  by (simp add: split_ws_def isspace_def)

text \<open>
  The no-break space separates fields as a blank does: a mount point written
  \<^verbatim>\<open>/var/crash\<close>, no-break space, \<^verbatim>\<open>x\<close> is read as the field \<^verbatim>\<open>/var/crash\<close>, so the line
  is taken for the store directory's and the dry-run branch is not reached.
\<close>

lemma split_ws_white_space:
  "split_ws (''a'' @ [CHR 0x85] @ ''b'' @ [CHR 0x1C] @ ''c'' @ [CHR 0x1F, CHR 0x0B] @ ''d''
              @ [CHR 0xA0])
     = [''a'', ''b'', ''c'', ''d'']"
  by (simp add: split_ws_def isspace_def)

lemma split_ws_nbsp_line:
  "split_ws (''30 22 8:3 / /var/crash'' @ [CHR 0xA0] @ ''x rw - ext4 /dev/sda3 rw'')
     = [''30'', ''22'', ''8:3'', ''/'', ''/var/crash'', ''x'', ''rw'', ''-'', ''ext4'',
        ''/dev/sda3'', ''rw'']"
  by (simp add: split_ws_def isspace_def)

lemma normpath_var_crash: "normpath ''/var/crash'' = ''/var/crash''"
  by (simp add: normpath_def Let_def)

lemma looking_for_var_crash:
  "abspath ''/'' (normpath (crash_directory (ErrorController_init ''/'' dry))) = ''/var/crash''"
  by (simp add: ErrorController_init_def os_path_join_def abspath_def normpath_def Let_def)

lemma find_mount_crash_line:
  "find_mount ''/var/crash''
     [''30 22 8:3 / /var/crash rw,relatime shared:5 - ext4 /dev/sda3 rw'']
     = Inr (Some (''/dev/sda3'', ''/''))"
  by (simp add: split_ws_crash_line normpath_var_crash)

lemma persistent_details_no_break_space:
  "persistent_details
     (host_ok\<lparr>mountinfo :=
        Inr [''30 22 8:3 / /var/crash'' @ [CHR 0xA0] @ ''x rw - ext4 /dev/sda3 rw'']\<rparr>)
     (ErrorController_init ''/'' True) rep = Inr (None, None)"
proof -
  let ?env = "host_ok\<lparr>mountinfo :=
        Inr [''30 22 8:3 / /var/crash'' @ [CHR 0xA0] @ ''x rw - ext4 /dev/sda3 rw'']\<rparr>"
  have "find_mount ''/var/crash''
          [''30 22 8:3 / /var/crash'' @ [CHR 0xA0] @ ''x rw - ext4 /dev/sda3 rw'']
        = Inr (Some (''/dev/sda3'', ''/''))"
    by (simp only: find_mount.simps split_ws_nbsp_line Let_def) (simp add: normpath_var_crash)
  moreover have "cwd ?env = ''/''" "list_devices ?env (realpath ?env ''/dev/sda3'') = Inr []"
    by (simp_all add: host_ok_def)
  ultimately show ?thesis
    by (intro persistent_details_no_device [where devname = "''/dev/sda3''" and root = "''/''"])
       (simp_all only: looking_for_var_crash, simp_all)
qed

theorem persistent_details_not_mounted_witness:
  "mountinfo host_root_mounted
     = Inr [''22 1 8:1 / / rw,relatime shared:1 - ext4 /dev/sda1 rw,errors=remount-ro'']
   \<and> 4 < length (split_ws
                   ''22 1 8:1 / / rw,relatime shared:1 - ext4 /dev/sda1 rw,errors=remount-ro'')
   \<and> normpath (split_ws
                  ''22 1 8:1 / / rw,relatime shared:1 - ext4 /dev/sda1 rw,errors=remount-ro'' ! 4)
         \<noteq> abspath (cwd host_root_mounted)
             (normpath (crash_directory (ErrorController_init ''/'' False)))
   \<and> persistent_details host_root_mounted (ErrorController_init ''/'' False)
        (loading_report ''1573000000.000000001.ui'' 0 (JObj [])) = Inr (None, None)
   \<and> mountinfo host_no_proc = Inl FileNotFoundError
   \<and> persistent_details host_no_proc (ErrorController_init ''/'' False)
        (loading_report ''1573000000.000000001.ui'' 0 (JObj [])) = Inl FileNotFoundError
   \<and> mountinfo host_no_udev
        = Inr [''30 22 8:3 / /var/crash rw,relatime shared:5 - ext4 /dev/sda3 rw'']
   \<and> find_mount
        (abspath (cwd host_no_udev) (normpath (crash_directory (ErrorController_init ''/'' False))))
        [''30 22 8:3 / /var/crash rw,relatime shared:5 - ext4 /dev/sda3 rw'']
        = Inr (Some (''/dev/sda3'', ''/''))
   \<and> list_devices host_no_udev (realpath host_no_udev ''/dev/sda3'') = Inl (Failure ''pyudev'')
   \<and> persistent_details host_no_udev (ErrorController_init ''/'' False)
        (loading_report ''1573000000.000000001.ui'' 0 (JObj [])) = Inl (Failure ''pyudev'')"
proof -
  let ?c = "ErrorController_init ''/'' False"
  let ?rep = "loading_report ''1573000000.000000001.ui'' 0 (JObj [])"
  let ?root = "''22 1 8:1 / / rw,relatime shared:1 - ext4 /dev/sda1 rw,errors=remount-ro''"
  let ?crash = "''30 22 8:3 / /var/crash rw,relatime shared:5 - ext4 /dev/sda3 rw''"
  have a: "mountinfo host_root_mounted = Inr [?root]"
    by (simp add: host_root_mounted_simps)
  have b1: "4 < length (split_ws ?root)"
    by (simp add: split_ws_root_line)
  have b2: "normpath (split_ws ?root ! 4)
         \<noteq> abspath (cwd host_root_mounted) (normpath (crash_directory ?c))"
    by (simp add: split_ws_root_line host_root_mounted_simps looking_for_var_crash)
       (simp add: normpath_def)
  from b1 b2 have b: "\<forall>l\<in>set [?root]. 4 < length (split_ws l)
         \<and> normpath (split_ws l ! 4)
             \<noteq> abspath (cwd host_root_mounted) (normpath (crash_directory ?c))"
    by simp
  have c: "\<not> dry_run ?c"
    by (simp add: ErrorController_init_def)
  have p: "mountinfo host_no_proc = Inl FileNotFoundError"
    by (simp add: host_no_proc_def host_ok_def)
  have u1: "mountinfo host_no_udev = Inr [?crash]"
    by (simp add: host_no_udev_simps)
  have u2: "find_mount (abspath (cwd host_no_udev) (normpath (crash_directory ?c))) [?crash]
        = Inr (Some (''/dev/sda3'', ''/''))"
    by (simp only: host_no_udev_simps looking_for_var_crash find_mount_crash_line)
  have u3: "list_devices host_no_udev (realpath host_no_udev ''/dev/sda3'')
        = Inl (Failure ''pyudev'')"
    by (simp add: host_no_udev_simps)
  have r1: "persistent_details host_root_mounted ?c ?rep = Inr (None, None)"
    using persistent_details_not_mounted
      [of host_root_mounted "[?root]" ?c ?rep, THEN conjunct1] a b c
    by simp
  have r2: "persistent_details host_no_proc ?c ?rep = Inl FileNotFoundError"
    using persistent_details_not_mounted
      [of host_no_proc _ ?c ?rep FileNotFoundError, THEN conjunct2, THEN conjunct1] p
    by simp
  have r3: "persistent_details host_no_udev ?c ?rep = Inl (Failure ''pyudev'')"
    using persistent_details_not_mounted
      [of host_no_udev "[?crash]" ?c ?rep "Failure ''pyudev''" "''/dev/sda3''" "''/''",
        THEN conjunct2, THEN conjunct2] u1 u2 u3
    by blast
  from a b1 b2 r1 p r2 u1 u2 u3 r3 show ?thesis by (intro conjI)
qed

text \<open>
  C8, as stated, fails in dry-run mode, where a store directory that is no mount point
  gives a label and a path, on a host whose mount table cannot be read, and on a host
  whose device lookup fails: there the exception reaches the caller.
\<close>

theorem persistent_details_counterexample:
  "persistent_details host_ok (ErrorController_init ''/'' True)
     (loading_report ''1573000000.000000001.ui'' 0 (JObj []))
     = Inr (Some ''casper-rw'',
            Some ''install-logs/2019-11-06.0/crash/1573000000.000000001.ui.crash'')
   \<and> persistent_details host_no_proc (ErrorController_init ''/'' False)
       (loading_report ''1573000000.000000001.ui'' 0 (JObj [])) = Inl FileNotFoundError
   \<and> persistent_details host_no_udev (ErrorController_init ''/'' False)
       (loading_report ''1573000000.000000001.ui'' 0 (JObj [])) = Inl (Failure ''pyudev'')"
proof -
  have "mountinfo host_ok = Inr []" "mountinfo host_no_proc = Inl FileNotFoundError"
    by (simp_all add: host_ok_def host_no_proc_def)
  moreover have "dry_run (ErrorController_init ''/'' True)"
    by (simp add: ErrorController_init_def)
  moreover have "persistent_details host_no_udev (ErrorController_init ''/'' False)
       (loading_report ''1573000000.000000001.ui'' 0 (JObj [])) = Inl (Failure ''pyudev'')"
  proof (rule persistent_details_device_error)
    show "mountinfo host_no_udev
        = Inr [''30 22 8:3 / /var/crash rw,relatime shared:5 - ext4 /dev/sda3 rw'']"
      by (simp add: host_no_udev_simps)
    show "find_mount
        (abspath (cwd host_no_udev) (normpath (crash_directory (ErrorController_init ''/'' False))))
        [''30 22 8:3 / /var/crash rw,relatime shared:5 - ext4 /dev/sda3 rw'']
        = Inr (Some (''/dev/sda3'', ''/''))"
      by (simp only: host_no_udev_simps looking_for_var_crash find_mount_crash_line)
    show "list_devices host_no_udev (realpath host_no_udev ''/dev/sda3'')
        = Inl (Failure ''pyudev'')"
      by (simp add: host_no_udev_simps)
  qed
  ultimately show ?thesis
    by (simp add: persistent_details_def loading_report_def)
qed

section \<open>The kind of a report is kept\<close>

lemma kinds_kept_refl [simp]: "kinds_kept w w"
  by (simp add: kinds_kept_def)

lemma kinds_kept_trans: "kinds_kept w w1 \<Longrightarrow> kinds_kept w1 w2 \<Longrightarrow> kinds_kept w w2"
  by (auto simp: kinds_kept_def)

lemma kinds_kept_same_objs: "objs w' = objs w \<Longrightarrow> kinds_kept w w'"
  by (simp add: kinds_kept_def)

lemma kinds_kept_artifact_only: "artifact_only w w' \<Longrightarrow> kinds_kept w w'"
  by (simp add: kinds_kept_def artifact_only_def kind_entry_def)

lemma kinds_kept_create_report: "kinds_kept w (snd (create_report now date k w))"
  by (auto simp: create_report_def new_def set_meta_def open_w_def alloc_report_def
      upd_report_def setitem_def insert_report_def close_def write_file_def Let_def
      and_then_def upd_at_def kinds_kept_def nth_append split: if_splits)

lemma kinds_kept_scan_crash_dir: "kinds_kept w (snd (scan_crash_dir w))"
  using scan_crash_dir_spec [of w] by (auto simp: kinds_kept_def)

lemma kinds_kept_add_info: "kinds_kept w (snd (add_info env r hook wait w))"
proof (cases wait)
  case True
  have "artifact_only (emit (LogDebug (''begin adding info for report '' @ base (objs w ! r))) w)
          (snd (add_info env r hook True w))"
    unfolding add_info_wait by (rule artifact_only_bg_add_info)
  then have "kinds_kept (emit (LogDebug (''begin adding info for report '' @ base (objs w ! r))) w)
          (snd (add_info env r hook True w))"
    by (rule kinds_kept_artifact_only)
  with True show ?thesis by (simp add: kinds_kept_def emit_def)
next
  case False
  then show ?thesis by (simp add: add_info_background kinds_kept_def emit_def)
qed

lemma kinds_kept_load: "kinds_kept w (snd (load r cb w))"
  by (simp add: load_def run_in_bg_def kinds_kept_def)

lemma kind_entry_other_key:
  "k \<noteq> ''kind'' \<Longrightarrow> meta rep = JObj d
   \<Longrightarrow> kind_entry (rep\<lparr>meta := JObj (dict_set d k v)\<rparr>) = kind_entry rep"
  by (simp add: kind_entry_def map_of_dict_set)

lemma kinds_kept_set_meta:
  assumes "k \<noteq> ''kind''"
  shows "kinds_kept w (snd (set_meta r k v w))"
proof (cases "r < length (objs w)")
  case True
  show ?thesis
  proof (cases "meta (objs w ! r)")
    case (JObj d)
    with True assms show ?thesis
      by (auto simp: set_meta_cases kinds_kept_def nth_list_update kind_entry_other_key)
  qed (simp_all add: set_meta_cases True)
next
  case False
  then have "objs (snd (set_meta r k v w)) = objs w"
    by (cases "meta (objs w ! r)")
       (simp_all add: set_meta_def setitem_def open_w_def upd_report_def upd_at_def
         write_file_def close_def)
  then show ?thesis by (rule kinds_kept_same_objs)
qed

lemma kinds_kept_mark_seen: "kinds_kept w (snd (mark_seen r w))"
proof -
  have "kinds_kept w (snd (set_meta r ''seen'' (JBool True) w))"
    by (rule kinds_kept_set_meta) simp
  moreover have "objs (snd (mark_seen r w)) = objs (snd (set_meta r ''seen'' (JBool True) w))"
    by (cases "set_meta r ''seen'' (JBool True) w"; cases "fst (set_meta r ''seen'' (JBool True) w)")
       (simp_all add: mark_seen_def emit_def)
  ultimately show ?thesis by (simp add: kinds_kept_def)
qed

lemma kinds_kept_close_and_notify: "kinds_kept w (snd (close_and_notify r w))"
  by (auto simp: close_and_notify_def kinds_kept_def emit_def upd_report_def close_def
      upd_at_nth_if kind_entry_def split: option.splits)

lemma kinds_kept_added_info: "kinds_kept w (snd (added_info r fut w))"
proof -
  let ?w2 = "case fut of
                  Inl e \<Rightarrow> emit (LogException ''adding info to problem report failed'' e)
                             (upd_report r (\<lambda>rep. rep\<lparr>state := ERROR_GENERATING\<rparr>)
                               (emit (LogDebug (''done adding info for report '' @ base (objs w ! r))) w))
                | Inr _ \<Rightarrow> upd_report r (\<lambda>rep. rep\<lparr>state := DONE\<rparr>)
                              (emit (LogDebug (''done adding info for report '' @ base (objs w ! r))) w)"
  have "kinds_kept w ?w2"
    by (cases fut) (auto simp: kinds_kept_def emit_def upd_report_def upd_at_nth_if kind_entry_def)
  moreover have "kinds_kept ?w2 (snd (close_and_notify r ?w2))"
    by (rule kinds_kept_close_and_notify)
  ultimately show ?thesis
    unfolding added_info_def Let_def by (rule kinds_kept_trans)
qed

lemma kinds_kept_loaded: "kinds_kept w (snd (loaded r cb fut w))"
proof -
  let ?w2 = "case fut of
                  Inl e \<Rightarrow> emit (LogException ''loading problem report failed'' e)
                             (upd_report r (\<lambda>rep. rep\<lparr>state := ERROR_LOADING\<rparr>)
                               (emit (LogDebug (''done loading report '' @ base (objs w ! r))) w))
                | Inr _ \<Rightarrow> upd_report r (\<lambda>rep. rep\<lparr>state := DONE\<rparr>)
                              (emit (LogDebug (''done loading report '' @ base (objs w ! r))) w)"
  obtain rest where cb: "cb = ReportLoaded rest" by (cases cb)
  have a: "kinds_kept w ?w2"
    by (cases fut) (auto simp: kinds_kept_def emit_def upd_report_def upd_at_nth_if kind_entry_def)
  have b: "kinds_kept ?w2 (snd (close_and_notify r ?w2))"
    by (rule kinds_kept_close_and_notify)
  have "objs (snd (and_then (close_and_notify r ?w2) (\<lambda>_ w3. call cb w3)))
          = objs (snd (close_and_notify r ?w2))"
    by (cases "close_and_notify r ?w2"; cases "fst (close_and_notify r ?w2)")
       (simp_all add: call_def cb report_loaded_frame)
  with kinds_kept_trans [OF a b] show ?thesis
    unfolding loaded_def Let_def by (simp add: kinds_kept_def)
qed

lemma kinds_kept_complete_task: "kinds_kept w (snd (complete_task env i w))"
proof (cases "i < length (pending w)")
  case False
  then show ?thesis by (simp add: complete_task_def)
next
  case True
  let ?w0 = "w\<lparr>pending := take i (pending w) @ drop (Suc i) (pending w)\<rparr>"
  have k0: "kinds_kept w ?w0" by (simp add: kinds_kept_def)
  show ?thesis
  proof (cases "pending w ! i")
    case (AddInfoTask r hook)
    obtain fut w1 where b: "bg_add_info env hook r ?w0 = (fut, w1)"
      by (cases "bg_add_info env hook r ?w0")
    have "artifact_only ?w0 (snd (bg_add_info env hook r ?w0))"
      by (rule artifact_only_bg_add_info)
    with b have "kinds_kept ?w0 w1" by (simp add: kinds_kept_artifact_only)
    with k0 have "kinds_kept w w1" by (rule kinds_kept_trans)
    then have "kinds_kept w (snd (added_info r fut w1))"
      using kinds_kept_added_info by (rule kinds_kept_trans)
    with True AddInfoTask b show ?thesis by (simp add: complete_task_def)
  next
    case (LoadTask r cb)
    let ?e = "emit (LogDebug (''loading report '' @ base (objs ?w0 ! r))) ?w0"
    obtain fut w1 where b: "bg_load env r ?w0 = (fut, w1)"
      by (cases "bg_load env r ?w0")
    have "artifact_only ?e (snd (bg_load env r ?w0))"
      by (rule artifact_only_bg_load)
    with b have "kinds_kept ?e w1" by (simp add: kinds_kept_artifact_only)
    moreover have "kinds_kept w ?e" by (simp add: kinds_kept_def emit_def)
    ultimately have "kinds_kept w w1" by (rule kinds_kept_trans [rotated])
    then have "kinds_kept w (snd (loaded r cb fut w1))"
      using kinds_kept_loaded by (rule kinds_kept_trans)
    with True LoadTask b show ?thesis by (simp add: complete_task_def)
  qed
qed

lemma kinds_kept_exec: "kinds_kept w (exec env x w)"
  by (cases x)
     (simp_all add: kinds_kept_create_report kinds_kept_scan_crash_dir kinds_kept_add_info
       kinds_kept_load kinds_kept_mark_seen kinds_kept_complete_task)

lemma kinds_kept_exec_all: "kinds_kept w (exec_all env xs w)"
proof (induction xs arbitrary: w)
  case Nil
  show ?case by simp
next
  case (Cons x xs)
  have "kinds_kept w (exec env x w)" by (rule kinds_kept_exec)
  then show ?case using Cons.IH by (simp add: kinds_kept_trans)
qed

text \<open>
  C9.  Once a report's \<^verbatim>\<open>meta["kind"]\<close> is set, every operation of the core leaves it as
  it is: \<^verbatim>\<open>create_report\<close>, \<^verbatim>\<open>scan_crash_dir\<close>, \<^verbatim>\<open>add_info\<close> in either mode, \<^verbatim>\<open>load\<close>,
  \<^verbatim>\<open>mark_seen\<close> and the delivery of a background task's outcome to \<^verbatim>\<open>added_info\<close> or
  \<^verbatim>\<open>loaded\<close>, on this report or on any other, in any number and order, whether they
  return or raise.
\<close>

theorem kind_never_overwritten:
  assumes "r < length (objs w)" and "kind_entry (objs w ! r) = Some v"
  shows "r < length (objs (exec_all env xs w))
       \<and> kind_entry (objs (exec_all env xs w) ! r) = Some v"
  using assms kinds_kept_exec_all [of w env xs] by (simp add: kinds_kept_def)

theorem kind_never_overwritten_witness:
  "0 < length (objs fresh_report_store)
   \<and> kind_entry (objs fresh_report_store ! 0) = Some (JStr ''UI'')
   \<and> kind_entry
        (objs (exec_all host_ok
                 [AddInfo 0 hook_failing False, Deliver 0, MarkSeen 0,
                  CreateReport ''1573000002.000000001'' ''Wed Nov  6 10:00:02 2019'' INSTALL_FAIL,
                  ScanCrashDir]
                 fresh_report_store) ! 0) = Some (JStr ''UI'')"
proof -
  have a: "0 < length (objs fresh_report_store)"
    and b: "kind_entry (objs fresh_report_store ! 0) = Some (JStr ''UI'')"
    by (simp_all add: fresh_report_store_eq kind_entry_def)
  note k = kind_never_overwritten [OF a b, where env = host_ok and xs =
      "[AddInfo 0 hook_failing False, Deliver 0, MarkSeen 0,
        CreateReport ''1573000002.000000001'' ''Wed Nov  6 10:00:02 2019'' INSTALL_FAIL,
        ScanCrashDir]"]
  from a b k [THEN conjunct2] show ?thesis by (intro conjI)
qed

end
